theory Spec2Isabelle
  imports Complex_Main "HOL-Library.Sublist" "HOL-Library.Log_Nat"
begin

section \<open>The metric pipeline of calculate\_metrics.ts\<close>

text \<open>
  A shallow embedding of \<^verbatim>\<open>src/calculate_metrics.ts\<close>: the License Classifier, the four
  metric calculators, the aggregator and the pipeline driver.  The query transport, the
  checkout, the file system, the clock and the console are external; their outcomes are
  arguments of the model and their use is recorded in an explicit \<open>world\<close>.
\<close>

subsection \<open>JavaScript numbers\<close>

text \<open>
  A value of type \<^verbatim>\<open>number\<close> is an IEEE 754 double: a finite number, one of the two
  infinities, or NaN.  \<open>Fin a\<close> is the finite double whose value is the real \<open>a\<close>.  Every
  arithmetic operation computes the exact real result and rounds it to the nearest double,
  ties to even, as ECMAScript prescribes.  The sign of zero is not modelled.
\<close>

datatype number = Fin real | PosInf | NegInf | NaN

text \<open>Rounding a real to the nearest integer, ties to the even one.\<close>

definition round_even :: "real \<Rightarrow> int" where
  "round_even y =
     (let n = \<lfloor>y\<rfloor>; f = y - of_int n
      in if f < 1 / 2 then n else if 1 / 2 < f then n + 1 else if even n then n else n + 1)"

text \<open>
  The binary exponent of a real \<open>x \<noteq> 0\<close>: the \<open>e\<close> with \<open>2\<^sup>e \<le> \<bar>x\<bar> < 2\<^sup>e\<^sup>+\<^sup>1\<close>.  The doubles
  between \<open>2\<^sup>e\<close> and \<open>2\<^sup>e\<^sup>+\<^sup>1\<close> are \<open>2\<^sup>e\<^sup>-\<^sup>5\<^sup>2\<close> apart (53 significant bits), and below
  \<open>2\<^sup>-\<^sup>1\<^sup>0\<^sup>2\<^sup>2\<close> they are \<open>2\<^sup>-\<^sup>1\<^sup>0\<^sup>7\<^sup>4\<close> apart (subnormal numbers).
\<close>

definition exponent :: "real \<Rightarrow> int" where
  "exponent x =
     (if 1 \<le> \<bar>x\<bar> then int (floorlog 2 (nat \<lfloor>\<bar>x\<bar>\<rfloor>)) - 1
      else - int (floorlog 2 (nat (\<lceil>1 / \<bar>x\<bar>\<rceil> - 1))))"

definition ulp_exponent :: "real \<Rightarrow> int" where
  "ulp_exponent x = max (exponent x) (- 1022) - 52"

definition round_to_double :: "real \<Rightarrow> real" where
  "round_to_double x =
     of_int (round_even (x / 2 powi ulp_exponent x)) * 2 powi ulp_exponent x"

definition signed_inf :: "bool \<Rightarrow> number" where
  "signed_inf neg = (if neg then NegInf else PosInf)"

text \<open>
  The double nearest to a real: a result that rounds to \<open>2\<^sup>1\<^sup>0\<^sup>2\<^sup>4\<close> or beyond overflows to
  an infinity.  A decimal literal of the program, such as \<^verbatim>\<open>0.7\<close>, denotes \<open>to_double 0.7\<close>.
\<close>

definition to_double :: "real \<Rightarrow> number" where
  "to_double x =
     (let y = round_to_double x
      in if 2 ^ 1024 \<le> \<bar>y\<bar> then signed_inf (x < 0) else Fin y)"

fun num_neg :: "number \<Rightarrow> number" where
  "num_neg (Fin a) = Fin (- a)"
| "num_neg PosInf = NegInf"
| "num_neg NegInf = PosInf"
| "num_neg NaN = NaN"

fun num_add :: "number \<Rightarrow> number \<Rightarrow> number" where
  "num_add (Fin a) (Fin b) = to_double (a + b)"
| "num_add NaN _ = NaN"
| "num_add _ NaN = NaN"
| "num_add PosInf NegInf = NaN"
| "num_add NegInf PosInf = NaN"
| "num_add PosInf _ = PosInf"
| "num_add NegInf _ = NegInf"
| "num_add (Fin a) PosInf = PosInf"
| "num_add (Fin a) NegInf = NegInf"

definition num_sub :: "number \<Rightarrow> number \<Rightarrow> number" where
  "num_sub x y = num_add x (num_neg y)"

text \<open>The sign of a number that is not NaN: \<open>True\<close> for negative.  Zero counts as \<open>+0\<close>.\<close>

fun num_negative :: "number \<Rightarrow> bool" where
  "num_negative (Fin a) = (a < 0)"
| "num_negative NegInf = True"
| "num_negative _ = False"

fun num_is_zero :: "number \<Rightarrow> bool" where
  "num_is_zero (Fin a) = (a = 0)"
| "num_is_zero _ = False"

fun num_mul :: "number \<Rightarrow> number \<Rightarrow> number" where
  "num_mul (Fin a) (Fin b) = to_double (a * b)"
| "num_mul NaN _ = NaN"
| "num_mul _ NaN = NaN"
| "num_mul x y =
     (if num_is_zero x \<or> num_is_zero y then NaN
      else signed_inf (num_negative x \<noteq> num_negative y))"

fun num_div :: "number \<Rightarrow> number \<Rightarrow> number" where
  "num_div NaN _ = NaN"
| "num_div _ NaN = NaN"
| "num_div (Fin a) (Fin b) =
     (if b \<noteq> 0 then to_double (a / b)
      else if a = 0 then NaN
      else signed_inf (a < 0))"
| "num_div (Fin a) _ = Fin 0"
| "num_div x (Fin b) = signed_inf (num_negative x \<noteq> (b < 0))"
| "num_div _ _ = NaN"

text \<open>The comparison \<^verbatim>\<open>x < y\<close>: false as soon as one side is NaN.\<close>

fun num_lt :: "number \<Rightarrow> number \<Rightarrow> bool" where
  "num_lt (Fin a) (Fin b) = (a < b)"
| "num_lt NaN _ = False"
| "num_lt _ NaN = False"
| "num_lt NegInf y = (y \<noteq> NegInf)"
| "num_lt x PosInf = (x \<noteq> PosInf)"
| "num_lt _ _ = False"

definition num_gt :: "number \<Rightarrow> number \<Rightarrow> bool" where
  "num_gt x y = num_lt y x"

text \<open>\<^verbatim>\<open>Math.min(x, y)\<close> and \<^verbatim>\<open>Math.max(x, y)\<close>: NaN as soon as one argument is NaN.\<close>

definition Math_min :: "number \<Rightarrow> number \<Rightarrow> number" where
  "Math_min x y = (if x = NaN \<or> y = NaN then NaN else if num_lt y x then y else x)"

definition Math_max :: "number \<Rightarrow> number \<Rightarrow> number" where
  "Math_max x y = (if x = NaN \<or> y = NaN then NaN else if num_lt x y then y else x)"

text \<open>\<^verbatim>\<open>Math.min(x)\<close>, with one argument only, is the argument.\<close>

definition Math_min1 :: "number \<Rightarrow> number" where
  "Math_min1 x = x"

text \<open>Truthiness of a number, and \<^verbatim>\<open>x || y\<close> on numbers: \<open>0\<close> and NaN are falsy.\<close>

fun truthy :: "number \<Rightarrow> bool" where
  "truthy (Fin a) = (a \<noteq> 0)"
| "truthy NaN = False"
| "truthy _ = True"

definition js_or :: "number \<Rightarrow> number \<Rightarrow> number" where
  "js_or x y = (if truthy x then x else y)"

text \<open>
  \<^verbatim>\<open>Number(x.toFixed(3))\<close>.  \<^verbatim>\<open>toFixed\<close> prints NaN, the infinities and every number of
  magnitude at least \<open>10\<^sup>2\<^sup>1\<close> as \<^verbatim>\<open>String(x)\<close>, which \<^verbatim>\<open>Number\<close> reads back as \<open>x\<close>.
  Otherwise it takes the integer \<open>n\<close> with \<open>n / 1000\<close> closest to the exact magnitude of
  \<open>x\<close>, the larger one of two, keeps the sign and prints \<open>n / 1000\<close> with three decimals;
  \<^verbatim>\<open>Number\<close> reads that as the nearest double.
\<close>

definition round_half_up :: "real \<Rightarrow> int" where
  "round_half_up y = \<lfloor>y + 1 / 2\<rfloor>"

fun toFixed3 :: "number \<Rightarrow> number" where
  "toFixed3 (Fin a) =
     (if 10 ^ 21 \<le> \<bar>a\<bar> then Fin a
      else if a < 0 then to_double (- (of_int (round_half_up (- a * 1000)) / 1000))
      else to_double (of_int (round_half_up (a * 1000)) / 1000))"
| "toFixed3 x = x"

subsection \<open>The aggregator\<close>

definition calculate_net_score :: "number \<Rightarrow> number \<Rightarrow> number \<Rightarrow> number \<Rightarrow> number" where
  "calculate_net_score licenseScore rampupScore correctnessScore responsiveMaintenanceScore =
     num_add (num_add (num_add
       (num_mul (Fin 0.25) licenseScore)
       (num_mul (Fin 0.25) rampupScore))
       (num_mul (Fin 0.25) correctnessScore))
       (num_mul (Fin 0.25) responsiveMaintenanceScore)"

subsection \<open>Strings\<close>

text \<open>
  License texts are strings over 8-bit characters.  \<^verbatim>\<open>toLowerCase\<close> maps the letters
  \<open>A\<close> to \<open>Z\<close> (codes 65 to 90) to \<open>a\<close> to \<open>z\<close> and leaves every other character as it
  is, which is what it does on ASCII text.
\<close>

definition toLowerCase_char :: "char \<Rightarrow> char" where
  "toLowerCase_char c =
     (let n = (of_char c :: nat) in if 65 \<le> n \<and> n \<le> 90 then char_of (n + 32) else c)"

definition toLowerCase :: "string \<Rightarrow> string" where
  "toLowerCase s = map toLowerCase_char s"

text \<open>\<^verbatim>\<open>s.includes(p)\<close>: \<open>p\<close> occurs in \<open>s\<close> as a contiguous run of characters.\<close>

fun String_includes :: "string \<Rightarrow> string \<Rightarrow> bool" where
  "String_includes [] p = (p = [])"
| "String_includes (c # s) p = (prefix p (c # s) \<or> String_includes s p)"

text \<open>
  \<^verbatim>\<open>t?.includes(p)\<close> used as a condition: \<^verbatim>\<open>undefined\<close>, hence false, when \<open>t\<close> is
  \<^verbatim>\<open>undefined\<close>.
\<close>

definition opt_includes :: "string option \<Rightarrow> string \<Rightarrow> bool" where
  "opt_includes t p = (case t of None \<Rightarrow> False | Some s \<Rightarrow> String_includes s p)"

text \<open>
  Truthiness of an optional string (\<open>None\<close> is \<^verbatim>\<open>undefined\<close> or \<^verbatim>\<open>null\<close>): the empty
  string is falsy too.  \<^verbatim>\<open>a || b\<close> on optional strings, and a string inside a template
  literal.
\<close>

fun truthy_str :: "string option \<Rightarrow> bool" where
  "truthy_str None = False"
| "truthy_str (Some s) = (s \<noteq> [])"

definition str_or :: "string option \<Rightarrow> string option \<Rightarrow> string option" where
  "str_or a b = (if truthy_str a then a else b)"

fun template :: "string option \<Rightarrow> string" where
  "template None = ''undefined''"
| "template (Some s) = s"

subsection \<open>The License Classifier\<close>

definition compatibleLicenses :: "string list" where
  "compatibleLicenses =
     [''mit license'',
      ''bsd 2-clause license'',
      ''bsd 3-clause license'',
      ''apache license, version 2.0'',
      ''lgpl'',
      ''gpl'',
      ''mozilla public license'',
      ''cc0'']"

definition permissivePhrases :: "string list" where
  "permissivePhrases =
     [''permission is hereby granted, free of charge'',
      ''redistribute'',
      ''without restriction'',
      ''provided that the above copyright notice'']"

definition incompatiblePhrases :: "string list" where
  "incompatiblePhrases =
     [''not for use in'',
      ''not licensed for'',
      ''proprietary'']"

definition check_license_text :: "string option \<Rightarrow> bool" where
  "check_license_text licenseText =
     (let normalizedText = map_option toLowerCase licenseText;
          mentionsCompatibleLicense =
            list_ex (\<lambda>license. opt_includes normalizedText license) compatibleLicenses;
          containsPermissivePhrases =
            list_ex (\<lambda>phrase. opt_includes normalizedText phrase) permissivePhrases;
          containsIncompatiblePhrases =
            list_ex (\<lambda>phrase. opt_includes normalizedText phrase) incompatiblePhrases
      in (mentionsCompatibleLicense \<or> containsPermissivePhrases)
         \<and> \<not> containsIncompatiblePhrases)"

subsection \<open>The world: clock, console, checkout and file system\<close>

text \<open>
  A fault thrown by the query transport or the checkout: a \<^verbatim>\<open>GraphqlResponseError\<close> with
  its message, or anything else.
\<close>

datatype fault = GraphqlResponseError string | OtherError string

text \<open>
  What \<^verbatim>\<open>JSON.stringify\<close> writes for a number: the number, or \<^verbatim>\<open>null\<close> for NaN and the
  infinities.
\<close>

datatype json = JNumber real | JNull

datatype printed =
    Text string
  | Thrown fault
  | FsErr string
  | Ndjson "(string \<times> json) list"

datatype event =
    ConsoleLog "printed list"
  | ConsoleError "printed list"
  | GitClone string string
  | FsRm string

text \<open>
  \<open>clock w n\<close> is the time of the \<open>n\<close>-th reading of \<^verbatim>\<open>performance.now()\<close>, which returns
  it as a double, \<open>reads w\<close> counts the readings taken so far, and \<open>trace w\<close> lists the
  effects in the order they happened.
\<close>

record world =
  clock :: "nat \<Rightarrow> real"
  reads :: nat
  trace :: "event list"

definition performance_now :: "world \<Rightarrow> number \<times> world" where
  "performance_now w = (to_double (clock w (reads w)), w\<lparr>reads := Suc (reads w)\<rparr>)"

definition emit :: "event \<Rightarrow> world \<Rightarrow> world" where
  "emit e w = w\<lparr>trace := trace w @ [e]\<rparr>"

definition getLatency :: "number \<Rightarrow> world \<Rightarrow> number \<times> world" where
  "getLatency startTime w =
     (case performance_now w of
        (now, w') \<Rightarrow> (toFixed3 (num_div (num_sub now startTime) (Fin 1000)), w'))"

text \<open>
  An object literal whose fields are numbers, in the order written.  Destructuring a
  field the object does not have gives \<^verbatim>\<open>undefined\<close>, here \<open>None\<close>.
\<close>

type_synonym obj = "(string \<times> number) list"

definition field :: "obj \<Rightarrow> string \<Rightarrow> number option" where
  "field ob k = map_of ob k"

subsection \<open>The Ramp-up calculator\<close>

text \<open>
  \<open>clone_outcome\<close> is what \<^verbatim>\<open>await git.clone(...)\<close> does: it returns, or it throws a fault,
  which the calculator does not catch, so the caller gets the fault (\<open>Inl\<close>).
  \<open>rm_outcome\<close> is the \<^verbatim>\<open>err\<close> that \<^verbatim>\<open>fs.rm\<close> hands to its callback, \<open>None\<close> on success.
  The callback runs after the calculator has built its result.
\<close>

definition calculate_rampup_metric ::
  "string option \<Rightarrow> string option \<Rightarrow> fault + unit \<Rightarrow> string option \<Rightarrow> world
    \<Rightarrow> (fault + obj) \<times> world" where
  "calculate_rampup_metric owner name clone_outcome rm_outcome w0 =
     (case performance_now w0 of (startTime, w1) \<Rightarrow>
        let w2 = emit (GitClone (''./repos/'' @ template name)
                   (''https://github.com/'' @ template owner @ ''/'' @ template name @ ''.git'')) w1
        in case clone_outcome of
             Inl error \<Rightarrow> (Inl error, w2)
           | Inr _ \<Rightarrow>
               let w3 = emit (FsRm (''./repos/'' @ template name)) w2
               in case getLatency startTime w3 of (latency, w4) \<Rightarrow>
                    (Inr [(''rampupScore'', Fin 0), (''rampup_latency'', latency)],
                     case rm_outcome of
                       Some err \<Rightarrow> emit (ConsoleError [FsErr err]) w4
                     | None \<Rightarrow> w4))"

subsection \<open>The Correctness calculator\<close>

text \<open>
  Modelled from the spec: the declaration of \<^verbatim>\<open>CorrectnessInterface\<close>
  (\<^verbatim>\<open>./interfaces/correctnessinterface\<close>) is not in the source file.  The reply to the
  correctness query carries the five counts the specification lists, which are the five
  \<^verbatim>\<open>totalCount\<close> fields the calculator selects.
\<close>

record CorrectnessInterface =
  issues_totalCount :: number
  closedIssues_totalCount :: number
  pullRequests_totalCount :: number
  releases_totalCount :: number
  history_totalCount :: number

definition issueRatio_of :: "number \<Rightarrow> number \<Rightarrow> number" where
  "issueRatio_of openIssues closedIssues =
     js_or (num_div closedIssues (num_add openIssues closedIssues)) (Fin 0)"

definition prRatio_of :: "number \<Rightarrow> number \<Rightarrow> number" where
  "prRatio_of openPullRequests releases =
     js_or (num_div releases (num_add openPullRequests releases)) (Fin 0)"

definition recentCommitRatio_of :: "number \<Rightarrow> number" where
  "recentCommitRatio_of recentCommits = Math_min (num_div recentCommits (Fin 30)) (Fin 1)"

definition correctnessScore_of :: "CorrectnessInterface \<Rightarrow> number" where
  "correctnessScore_of repo =
     (let openIssues = issues_totalCount repo;
          closedIssues = closedIssues_totalCount repo;
          openPullRequests = pullRequests_totalCount repo;
          releases = releases_totalCount repo;
          recentCommits = history_totalCount repo;
          issueRatio = issueRatio_of openIssues closedIssues;
          prRatio = prRatio_of openPullRequests releases;
          recentCommitRatio = recentCommitRatio_of recentCommits
      in toFixed3 (Math_max (Fin 0)
           (Math_min1 (num_div (num_add (num_add issueRatio prRatio) recentCommitRatio) (Fin 3)))))"

text \<open>The \<^verbatim>\<open>catch\<close> block of the License and Correctness calculators prints the fault.\<close>

definition log_fault :: "fault \<Rightarrow> world \<Rightarrow> world" where
  "log_fault error w =
     (case error of
        GraphqlResponseError message \<Rightarrow> emit (ConsoleLog [Text message]) w
      | _ \<Rightarrow> emit (ConsoleLog [Thrown error]) w)"

text \<open>
  \<open>reply\<close> is what \<^verbatim>\<open>await graphqlWithAuth(query)\<close> does: it returns the response (\<open>Inr\<close>)
  or throws a fault (\<open>Inl\<close>).  \<open>owner\<close> and \<open>name\<close> only go into the query text.
\<close>

definition calculate_correctness_metric ::
  "string option \<Rightarrow> string option \<Rightarrow> fault + CorrectnessInterface \<Rightarrow> world \<Rightarrow> obj \<times> world" where
  "calculate_correctness_metric owner name reply w0 =
     (case performance_now w0 of (startTime, w1) \<Rightarrow>
        case reply of
          Inr repo \<Rightarrow>
            let correctnessScore = correctnessScore_of repo
            in case getLatency startTime w1 of (latency, w2) \<Rightarrow>
                 ([(''correctnessScore'', correctnessScore), (''correctness_latency'', latency)], w2)
        | Inl error \<Rightarrow>
            ([(''licenseScore'', Fin 0), (''license_latency'', Fin 0)], log_fault error w1))"

subsection \<open>The Responsiveness calculator\<close>

record PullRequestNode =
  pr_createdAt :: string
  pr_closedAt :: "string option"
  pr_mergedAt :: "string option"
  pr_state :: string

record IssueNode =
  issue_createdAt :: string
  issue_closedAt :: "string option"
  issue_state :: string

record RepositoryResponse =
  pullRequests_edges :: "PullRequestNode list"
  issues_edges :: "IssueNode list"

text \<open>
  \<^verbatim>\<open>new Date(s).getTime()\<close> is a parameter, \<open>getTime\<close>: the milliseconds of a timestamp, NaN
  for a string that is no date.  The body of each \<^verbatim>\<open>forEach\<close> is a step on the pair of the
  running total and the count of resolved items.
\<close>

definition pr_step ::
  "(string \<Rightarrow> number) \<Rightarrow> number \<times> number \<Rightarrow> PullRequestNode \<Rightarrow> number \<times> number" where
  "pr_step getTime acc pr =
     (case acc of (totalPrResponseTime, resolvedPrs) \<Rightarrow>
        if truthy_str (pr_closedAt pr) \<or> truthy_str (pr_mergedAt pr) then
          let createdAt = (if pr_createdAt pr \<noteq> [] then getTime (pr_createdAt pr) else Fin 0);
              closedOrMergedAt =
                (if truthy_str (pr_closedAt pr) \<or> truthy_str (pr_mergedAt pr)
                 then (case str_or (pr_closedAt pr) (pr_mergedAt pr) of
                         Some s \<Rightarrow> getTime s | None \<Rightarrow> NaN)
                 else Fin 0)
          in (num_add totalPrResponseTime (num_sub closedOrMergedAt createdAt),
              num_add resolvedPrs (Fin 1))
        else acc)"

definition issue_step ::
  "(string \<Rightarrow> number) \<Rightarrow> number \<times> number \<Rightarrow> IssueNode \<Rightarrow> number \<times> number" where
  "issue_step getTime acc issue =
     (case acc of (totalIssueResponseTime, resolvedIssues) \<Rightarrow>
        (case issue_closedAt issue of
           Some s \<Rightarrow>
             if s \<noteq> [] then
               let createdAt = getTime (issue_createdAt issue);
                   closedAt = getTime s
               in (num_add totalIssueResponseTime (num_sub closedAt createdAt),
                   num_add resolvedIssues (Fin 1))
             else acc
         | None \<Rightarrow> acc))"

definition average :: "number \<times> number \<Rightarrow> number" where
  "average acc =
     (case acc of (totalResponseTime, resolved) \<Rightarrow>
        if num_gt resolved (Fin 0) then num_div totalResponseTime resolved else PosInf)"

definition avgPrResponseTime :: "(string \<Rightarrow> number) \<Rightarrow> PullRequestNode list \<Rightarrow> number" where
  "avgPrResponseTime getTime pullRequests =
     average (foldl (pr_step getTime) (Fin 0, Fin 0) pullRequests)"

definition avgIssueResponseTime :: "(string \<Rightarrow> number) \<Rightarrow> IssueNode list \<Rightarrow> number" where
  "avgIssueResponseTime getTime issues =
     average (foldl (issue_step getTime) (Fin 0, Fin 0) issues)"

definition maxAcceptableResponseTime :: number where
  "maxAcceptableResponseTime = num_mul (Fin 86400000) (Fin 7)"

definition responsivenessScore_of :: "number \<Rightarrow> number \<Rightarrow> number" where
  "responsivenessScore_of avgPr avgIssue =
     (if num_lt avgPr maxAcceptableResponseTime \<and> num_lt avgIssue maxAcceptableResponseTime
      then Fin 1
      else if num_lt avgPr maxAcceptableResponseTime \<or> num_lt avgIssue maxAcceptableResponseTime
      then to_double 0.7
      else to_double 0.3)"

definition calculate_responsiveness_metric ::
  "(string \<Rightarrow> number) \<Rightarrow> string option \<Rightarrow> string option \<Rightarrow> fault + RepositoryResponse
    \<Rightarrow> world \<Rightarrow> obj \<times> world" where
  "calculate_responsiveness_metric getTime owner name reply w0 =
     (case performance_now w0 of (startTime, w1) \<Rightarrow>
        case reply of
          Inr repo \<Rightarrow>
            let responsivenessScore =
                  responsivenessScore_of
                    (avgPrResponseTime getTime (pullRequests_edges repo))
                    (avgIssueResponseTime getTime (issues_edges repo))
            in case getLatency startTime w1 of (latency, w2) \<Rightarrow>
                 ([(''responsivenessScore'', responsivenessScore),
                   (''responsive_latency'', latency)], w2)
        | Inl error \<Rightarrow>
            ([(''responsivenessScore'', Fin 0), (''responsive_latency'', Fin 0)],
             emit (ConsoleError [Text ''Error fetching repository data:'', Thrown error]) w1))"

subsection \<open>The License calculator\<close>

definition lgplCompatibleSpdxIds :: "string list" where
  "lgplCompatibleSpdxIds =
     [''LGPL-2.1-only'',
      ''LGPL-2.1-or-later'',
      ''MIT'',
      ''BSD-3-Clause'',
      ''BSD-2-Clause'',
      ''ISC'',
      ''Zlib'',
      ''Artistic-2.0'',
      ''GPL-2.0-only'',
      ''GPL-2.0-or-later'',
      ''GPL-3.0-only'',
      ''GPL-3.0-or-later'',
      ''LGPL-3.0-only'',
      ''LGPL-3.0-or-later'',
      ''MPL-2.0'',
      ''Unlicense'',
      ''CC0-1.0'']"

text \<open>
  Modelled from the spec: the declaration of \<^verbatim>\<open>LicenseInfo\<close> (\<^verbatim>\<open>./interfaces/LicenseInfo\<close>)
  is not in the source file.  The reply to the license query carries the optional
  \<open>licenseInfo\<close> with its optional name and SPDX identifier, and the two optional LICENSE
  blobs the calculator reads.  \<open>None\<close> is \<^verbatim>\<open>null\<close> or \<^verbatim>\<open>undefined\<close>; \<open>mainLicense\<close> and
  \<open>masterLicense\<close> hold the \<^verbatim>\<open>text\<close> of the blob, when there is a blob.
\<close>

record licenseInfo_fields =
  info_name :: "string option"
  info_spdxId :: "string option"

record LicenseInfo =
  licenseInfo :: "licenseInfo_fields option"
  mainLicense :: "string option option"
  masterLicense :: "string option option"

text \<open>\<^verbatim>\<open>blob?.text\<close>.\<close>

definition opt_text :: "string option option \<Rightarrow> string option" where
  "opt_text blob = (case blob of None \<Rightarrow> None | Some t \<Rightarrow> t)"

definition licenseText_of :: "LicenseInfo \<Rightarrow> string option" where
  "licenseText_of repo = str_or (opt_text (mainLicense repo)) (opt_text (masterLicense repo))"

definition licenseScore_of :: "LicenseInfo \<Rightarrow> number" where
  "licenseScore_of repo =
     (let licenseText = licenseText_of repo;
          licenseID = (case licenseInfo repo of None \<Rightarrow> None | Some i \<Rightarrow> info_spdxId i);
          licenseName = (case licenseInfo repo of None \<Rightarrow> None | Some i \<Rightarrow> info_name i)
      in if licenseInfo repo = None \<or> licenseID = None then Fin 0
         else if licenseName = Some ''Other'' \<and> truthy_str licenseText
                 \<and> check_license_text licenseText
         then Fin 1
         else if (case licenseID of
                    Some ident \<Rightarrow> ident \<in> set lgplCompatibleSpdxIds
                  | None \<Rightarrow> False)
         then Fin 1
         else Fin 0)"

definition calculate_license_metric ::
  "string option \<Rightarrow> string option \<Rightarrow> fault + LicenseInfo \<Rightarrow> world \<Rightarrow> obj \<times> world" where
  "calculate_license_metric owner name reply w0 =
     (case performance_now w0 of (startTime, w1) \<Rightarrow>
        case reply of
          Inr repo \<Rightarrow>
            let licenseScore = licenseScore_of repo
            in case getLatency startTime w1 of (latency, w2) \<Rightarrow>
                 ([(''licenseScore'', licenseScore), (''license_latency'', latency)], w2)
        | Inl error \<Rightarrow>
            ([(''licenseScore'', Fin 0), (''license_latency'', Fin 0)], log_fault error w1))"

subsection \<open>The pipeline driver\<close>

text \<open>
  \<^verbatim>\<open>JSON.stringify\<close> of an object whose fields are numbers or \<^verbatim>\<open>undefined\<close>: a field that
  is \<^verbatim>\<open>undefined\<close> is left out.
\<close>

fun json_of :: "number \<Rightarrow> json" where
  "json_of (Fin a) = JNumber a"
| "json_of _ = JNull"

fun JSON_stringify :: "(string \<times> number option) list \<Rightarrow> (string \<times> json) list" where
  "JSON_stringify [] = []"
| "JSON_stringify ((k, None) # members) = JSON_stringify members"
| "JSON_stringify ((k, Some v) # members) = (k, json_of v) # JSON_stringify members"

text \<open>
  \<open>main\<close> after \<^verbatim>\<open>fetch_repo_info\<close> has resolved \<open>owner\<close> and \<open>name\<close>; the three replies are
  those of the transport to the three queries, in the order the driver sends them.
\<close>

definition main ::
  "(string \<Rightarrow> number) \<Rightarrow> string option \<Rightarrow> string option \<Rightarrow> fault + LicenseInfo
    \<Rightarrow> fault + RepositoryResponse \<Rightarrow> fault + CorrectnessInterface \<Rightarrow> world \<Rightarrow> world" where
  "main getTime owner name license_reply responsiveness_reply correctness_reply w0 =
     (case calculate_license_metric owner name license_reply w0 of (lic, w1) \<Rightarrow>
      case calculate_responsiveness_metric getTime owner name responsiveness_reply w1 of
        (resp, w2) \<Rightarrow>
      case calculate_correctness_metric owner name correctness_reply w2 of (corr, w3) \<Rightarrow>
        let data =
              [(''licenseScore'', field lic ''licenseScore''),
               (''license_latency'', field lic ''license_latency''),
               (''responsivenessScore'', field resp ''responsivenessScore''),
               (''responsive_latency'', field resp ''responsive_latency''),
               (''correctnessScore'', field corr ''correctnessScore''),
               (''correctness_latency'', field corr ''correctness_latency'')];
            ndjson = JSON_stringify data
        in emit (ConsoleLog [Ndjson ndjson]) w3)"

subsection \<open>The correctness formula as the specification words it\<close>

text \<open>
  \<open>count_of n\<close> is the number the program holds for the integer count \<open>n\<close>: the nearest
  double, which is \<open>n\<close> itself up to \<open>2\<^sup>5\<^sup>3\<close>.  \<open>counts\<close> is the reply to the correctness
  query that carries five given counts.
\<close>

definition count_of :: "nat \<Rightarrow> number" where
  "count_of n = to_double (real n)"

definition counts :: "nat \<Rightarrow> nat \<Rightarrow> nat \<Rightarrow> nat \<Rightarrow> nat \<Rightarrow> CorrectnessInterface" where
  "counts openIssues closedIssues openPRs releases recentCommits =
     \<lparr>issues_totalCount = count_of openIssues,
      closedIssues_totalCount = count_of closedIssues,
      pullRequests_totalCount = count_of openPRs,
      releases_totalCount = count_of releases,
      history_totalCount = count_of recentCommits\<rparr>"

text \<open>
  The specification's formula, evaluated in the arithmetic of the program: a ratio is 0
  when its denominator is 0, the recent-commit ratio is capped at 1, and the score is the
  mean of the three ratios, clamped to [0,1] and rounded to three decimals.
\<close>

definition spec_ratio :: "number \<Rightarrow> number \<Rightarrow> number" where
  "spec_ratio numerator denominator =
     (if denominator = Fin 0 then Fin 0 else num_div numerator denominator)"

definition spec_clamp :: "number \<Rightarrow> number \<Rightarrow> number \<Rightarrow> number" where
  "spec_clamp x lo hi = Math_max lo (Math_min x hi)"

definition spec_correctness_score :: "nat \<Rightarrow> nat \<Rightarrow> nat \<Rightarrow> nat \<Rightarrow> nat \<Rightarrow> number" where
  "spec_correctness_score openIssues closedIssues openPRs releases recentCommits =
     (let issueRatio =
            spec_ratio (count_of closedIssues)
              (num_add (count_of openIssues) (count_of closedIssues));
          prRatio =
            spec_ratio (count_of releases) (num_add (count_of openPRs) (count_of releases));
          recentCommitRatio = Math_min (num_div (count_of recentCommits) (Fin 30)) (Fin 1)
      in toFixed3
           (spec_clamp (num_div (num_add (num_add issueRatio prRatio) recentCommitRatio) (Fin 3))
              (Fin 0) (Fin 1)))"

text \<open>
  The same formula evaluated in exact real arithmetic: the clamped mean, and its rounding
  to three decimals, a tie going up.
\<close>

definition exact_ratio :: "nat \<Rightarrow> nat \<Rightarrow> real" where
  "exact_ratio numerator denominator =
     (if denominator = 0 then 0 else real numerator / real denominator)"

definition exact_mean :: "nat \<Rightarrow> nat \<Rightarrow> nat \<Rightarrow> nat \<Rightarrow> nat \<Rightarrow> real" where
  "exact_mean openIssues closedIssues openPRs releases recentCommits =
     (let issueRatio = exact_ratio closedIssues (openIssues + closedIssues);
          prRatio = exact_ratio releases (openPRs + releases);
          recentCommitRatio = min (real recentCommits / 30) 1
      in max 0 (min ((issueRatio + prRatio + recentCommitRatio) / 3) 1))"

definition exact_correctness_score :: "nat \<Rightarrow> nat \<Rightarrow> nat \<Rightarrow> nat \<Rightarrow> nat \<Rightarrow> real" where
  "exact_correctness_score openIssues closedIssues openPRs releases recentCommits =
     of_int (round (exact_mean openIssues closedIssues openPRs releases recentCommits * 1000))
       / 1000"

text \<open>A nonnegative double or \<open>+\<infinity>\<close>.\<close>

definition nonneg_double :: "number \<Rightarrow> bool" where
  "nonneg_double x =
     (case x of Fin v \<Rightarrow> 0 \<le> v \<and> round_to_double v = v | PosInf \<Rightarrow> True | _ \<Rightarrow> False)"

subsection \<open>The responsiveness thresholds as the specification words them\<close>

text \<open>
  An average resolution time, for the specification, is a nonnegative finite number or
  \<open>+\<infinity>\<close>; it is below the threshold when it is finite and less than 604800000 ms.  A
  pull request or an issue is unresolved when it has no close (or merge) timestamp.
\<close>

definition spec_is_average :: "number \<Rightarrow> bool" where
  "spec_is_average avg = (case avg of Fin x \<Rightarrow> 0 \<le> x | PosInf \<Rightarrow> True | _ \<Rightarrow> False)"

definition spec_below_threshold :: "number \<Rightarrow> bool" where
  "spec_below_threshold avg = (case avg of Fin x \<Rightarrow> x < 604800000 | _ \<Rightarrow> False)"

definition pr_unresolved :: "PullRequestNode \<Rightarrow> bool" where
  "pr_unresolved pr = (pr_closedAt pr = None \<and> pr_mergedAt pr = None)"

definition issue_unresolved :: "IssueNode \<Rightarrow> bool" where
  "issue_unresolved issue = (issue_closedAt issue = None)"

text \<open>A \<open>getTime\<close> that reads three timestamps, for concrete runs.\<close>

definition sample_getTime :: "string \<Rightarrow> number" where
  "sample_getTime s =
     (if s = ''1970-01-01T00:00:00Z'' then Fin 0
      else if s = ''1970-01-02T00:00:00Z'' then Fin 86400000
      else if s = ''1970-01-09T00:00:00Z'' then Fin 691200000
      else NaN)"

text \<open>
  Three replies for concrete runs: a pull request closed after one day with an issue
  still open; a pull request and an issue each closed after one day; a pull request
  merged after eight days with an issue closed after eight days.
\<close>

definition reply_one_side :: RepositoryResponse where
  "reply_one_side =
     \<lparr>pullRequests_edges =
        [\<lparr>pr_createdAt = ''1970-01-01T00:00:00Z'', pr_closedAt = Some ''1970-01-02T00:00:00Z'',
          pr_mergedAt = None, pr_state = ''CLOSED''\<rparr>],
      issues_edges =
        [\<lparr>issue_createdAt = ''1970-01-01T00:00:00Z'', issue_closedAt = None,
          issue_state = ''OPEN''\<rparr>]\<rparr>"

definition reply_both_sides :: RepositoryResponse where
  "reply_both_sides =
     \<lparr>pullRequests_edges =
        [\<lparr>pr_createdAt = ''1970-01-01T00:00:00Z'', pr_closedAt = Some ''1970-01-02T00:00:00Z'',
          pr_mergedAt = None, pr_state = ''CLOSED''\<rparr>],
      issues_edges =
        [\<lparr>issue_createdAt = ''1970-01-01T00:00:00Z'',
          issue_closedAt = Some ''1970-01-02T00:00:00Z'', issue_state = ''CLOSED''\<rparr>]\<rparr>"

definition reply_slow :: RepositoryResponse where
  "reply_slow =
     \<lparr>pullRequests_edges =
        [\<lparr>pr_createdAt = ''1970-01-01T00:00:00Z'', pr_closedAt = None,
          pr_mergedAt = Some ''1970-01-09T00:00:00Z'', pr_state = ''MERGED''\<rparr>],
      issues_edges =
        [\<lparr>issue_createdAt = ''1970-01-01T00:00:00Z'',
          issue_closedAt = Some ''1970-01-09T00:00:00Z'', issue_state = ''CLOSED''\<rparr>]\<rparr>"

section \<open>Properties\<close>

subsection \<open>Rounding to a double\<close>

lemma round_even_int [simp]: "round_even (of_int n) = n"
  by (simp add: round_even_def)

lemma round_even_mono: "y \<le> z \<Longrightarrow> round_even y \<le> round_even z"
proof -
  assume yz: "y \<le> z"
  have fl: "\<lfloor>y\<rfloor> \<le> \<lfloor>z\<rfloor>" using yz by (rule floor_mono)
  have ub: "round_even y \<le> \<lfloor>y\<rfloor> + 1" by (simp add: round_even_def Let_def)
  have lb: "\<lfloor>z\<rfloor> \<le> round_even z" by (simp add: round_even_def Let_def)
  show ?thesis
  proof (cases "\<lfloor>y\<rfloor> < \<lfloor>z\<rfloor>")
    case True
    then show ?thesis using ub lb by linarith
  next
    case False
    then have eq: "\<lfloor>y\<rfloor> = \<lfloor>z\<rfloor>" using fl by simp
    then show ?thesis using yz by (auto simp: round_even_def Let_def)
  qed
qed

lemma round_even_error: "\<bar>of_int (round_even y) - y\<bar> \<le> 1 / 2"
  unfolding round_even_def Let_def by (auto; linarith)

lemma exponent_bounds:
  assumes "x \<noteq> 0"
  shows "2 powi exponent x \<le> \<bar>x\<bar> \<and> \<bar>x\<bar> < 2 powi (exponent x + 1)"
proof (cases "1 \<le> \<bar>x\<bar>")
  case True
  let ?n = "nat \<lfloor>\<bar>x\<bar>\<rfloor>"
  have n: "?n > 0" using True by simp
  have b: "2 ^ (floorlog 2 ?n - 1) \<le> ?n \<and> ?n < 2 ^ floorlog 2 ?n"
    using floorlog_bounds [of ?n 2] n by simp
  have f1: "floorlog 2 ?n \<ge> 1" using n by (simp add: floorlog_def)
  have e: "exponent x = int (floorlog 2 ?n - 1)" using True f1 by (simp add: exponent_def)
  have e1: "exponent x + 1 = int (floorlog 2 ?n)" using e f1 by simp
  have "real ?n \<le> \<bar>x\<bar>" using True by simp
  moreover have "(2::real) ^ (floorlog 2 ?n - 1) \<le> real ?n"
    using b by (metis of_nat_le_iff of_nat_numeral of_nat_power)
  ultimately have "(2::real) ^ (floorlog 2 ?n - 1) \<le> \<bar>x\<bar>" by linarith
  then have l: "2 powi exponent x \<le> \<bar>x\<bar>" unfolding e by (simp only: power_int_of_nat)
  have "\<bar>x\<bar> < real ?n + 1" using True by simp
  moreover have "real ?n + 1 \<le> (2::real) ^ floorlog 2 ?n"
  proof -
    have "?n + 1 \<le> 2 ^ floorlog 2 ?n" using b by linarith
    then have "real (?n + 1) \<le> real (2 ^ floorlog 2 ?n)" by (simp only: of_nat_le_iff)
    then show ?thesis by simp
  qed
  ultimately have "\<bar>x\<bar> < (2::real) ^ floorlog 2 ?n" by linarith
  then have u: "\<bar>x\<bar> < 2 powi (exponent x + 1)" unfolding e1 by (simp only: power_int_of_nat)
  show ?thesis using l u by simp
next
  case False
  define y where "y = 1 / \<bar>x\<bar>"
  have y1: "1 < y" using False assms by (simp add: y_def)
  let ?n = "nat (\<lceil>y\<rceil> - 1)"
  have c2: "\<lceil>y\<rceil> \<ge> 2" using y1 by linarith
  have n: "?n > 0" using c2 by simp
  have b: "2 ^ (floorlog 2 ?n - 1) \<le> ?n \<and> ?n < 2 ^ floorlog 2 ?n"
    using floorlog_bounds [of ?n 2] n by simp
  let ?k = "floorlog 2 ?n"
  have k1: "?k \<ge> 1" using n by (simp add: floorlog_def)
  have e: "exponent x = - int ?k" using False by (simp add: exponent_def y_def)
  have rn: "real ?n = real_of_int \<lceil>y\<rceil> - 1" using c2 by simp
  have "?n + 1 \<le> 2 ^ ?k" using b by linarith
  then have "real (?n + 1) \<le> real (2 ^ ?k)" by (simp only: of_nat_le_iff)
  moreover have "real (?n + 1) = real ?n + 1" "real (2 ^ ?k) = (2::real) ^ ?k" by simp_all
  ultimately have "real_of_int \<lceil>y\<rceil> \<le> 2 ^ ?k" using rn by linarith
  then have yk: "y \<le> 2 ^ ?k" using le_of_int_ceiling [of y] by linarith
  have "2 ^ (?k - 1) \<le> ?n" using b by simp
  then have "real (2 ^ (?k - 1)) \<le> real ?n" by (simp only: of_nat_le_iff)
  moreover have "real (2 ^ (?k - 1)) = (2::real) ^ (?k - 1)" by simp
  ultimately have "(2::real) ^ (?k - 1) \<le> real_of_int \<lceil>y\<rceil> - 1" using rn by linarith
  then have ky: "(2::real) ^ (?k - 1) < y" by linarith
  have xpos: "\<bar>x\<bar> > 0" using assms by simp
  have inv: "1 / y = \<bar>x\<bar>" by (simp add: y_def)
  have l: "2 powi exponent x \<le> \<bar>x\<bar>"
  proof -
    have "1 / 2 ^ ?k \<le> 1 / y" using yk y1 by (simp add: frac_le)
    moreover have "2 powi exponent x = 1 / (2::real) ^ ?k"
      unfolding e by (simp add: power_int_minus divide_inverse)
    ultimately show ?thesis using inv by linarith
  qed
  have u: "\<bar>x\<bar> < 2 powi (exponent x + 1)"
  proof -
    have "1 / y < 1 / 2 ^ (?k - 1)" using ky by (simp add: frac_less2)
    moreover have e1: "exponent x + 1 = - int (?k - 1)" using e k1 by simp
    have "2 powi (exponent x + 1) = 1 / (2::real) ^ (?k - 1)"
      unfolding e1 by (simp add: power_int_minus divide_inverse)
    ultimately show ?thesis using inv by linarith
  qed
  show ?thesis using l u by simp
qed

lemma two_powi_less_iff: "(2::real) powi m < 2 powi n \<longleftrightarrow> m < n"
proof
  assume l: "(2::real) powi m < 2 powi n"
  show "m < n"
  proof (rule ccontr)
    assume "\<not> m < n"
    then have "n \<le> m" by simp
    then have "(2::real) powi n \<le> 2 powi m" by (intro power_int_increasing) simp_all
    then show False using l by simp
  qed
next
  assume "m < n"
  then show "(2::real) powi m < 2 powi n" by (intro power_int_strict_increasing) simp_all
qed

lemma two_powi_le_iff: "(2::real) powi m \<le> 2 powi n \<longleftrightarrow> m \<le> n"
  using two_powi_less_iff [of n m] by (auto simp: not_less [symmetric])

lemma exponent_unique:
  assumes "2 powi e \<le> \<bar>x\<bar>" "\<bar>x\<bar> < 2 powi (e + 1)"
  shows "exponent x = e"
proof -
  have p: "0 < (2::real) powi e" by simp
  have "0 < \<bar>x\<bar>" using p assms(1) by linarith
  then have x0: "x \<noteq> 0" by simp
  note b = exponent_bounds [OF x0]
  have "(2::real) powi exponent x < 2 powi (e + 1)" using b assms by linarith
  then have 1: "exponent x < e + 1" by (simp only: two_powi_less_iff)
  have "(2::real) powi e < 2 powi (exponent x + 1)" using b assms by linarith
  then have 2: "e < exponent x + 1" by (simp only: two_powi_less_iff)
  show ?thesis using 1 2 by simp
qed

lemma exponent_mono:
  assumes "0 < x" "x \<le> y"
  shows "exponent x \<le> exponent y"
proof -
  have bx: "2 powi exponent x \<le> x" using exponent_bounds [of x] assms by simp
  have by': "y < 2 powi (exponent y + 1)" using exponent_bounds [of y] assms by simp
  have "(2::real) powi exponent x < 2 powi (exponent y + 1)" using bx by' assms by linarith
  then have "exponent x < exponent y + 1" by (simp only: two_powi_less_iff)
  then show ?thesis by simp
qed

lemma round_even_nonneg: "0 \<le> y \<Longrightarrow> 0 \<le> round_even y"
  using round_even_mono [of 0 y] round_even_int [of 0] by simp

lemma round_even_le_int: "y \<le> of_int n \<Longrightarrow> round_even y \<le> n"
  using round_even_mono [of y "of_int n"] by simp

lemma round_even_ge_int: "of_int n \<le> y \<Longrightarrow> n \<le> round_even y"
  using round_even_mono [of "of_int n" y] by simp

lemma ulp_exponent_mono: "0 < x \<Longrightarrow> x \<le> y \<Longrightarrow> ulp_exponent x \<le> ulp_exponent y"
  using exponent_mono [of x y] by (simp add: ulp_exponent_def)

lemma scaled_bounds:
  assumes "x \<noteq> 0"
  shows "\<bar>x\<bar> / 2 powi ulp_exponent x < 2 ^ 53"
    and "- 1022 \<le> exponent x \<Longrightarrow> 2 ^ 52 \<le> \<bar>x\<bar> / 2 powi ulp_exponent x"
proof -
  note b = exponent_bounds [OF assms]
  have "exponent x + 1 \<le> ulp_exponent x + 53" by (simp add: ulp_exponent_def)
  then have "(2::real) powi (exponent x + 1) \<le> 2 powi (ulp_exponent x + 53)"
    by (simp only: two_powi_le_iff)
  also have "\<dots> = 2 powi ulp_exponent x * 2 ^ 53"
    by (simp add: power_int_add)
  finally have "\<bar>x\<bar> < 2 powi ulp_exponent x * 2 ^ 53" using b by linarith
  then show "\<bar>x\<bar> / 2 powi ulp_exponent x < 2 ^ 53"
    by (simp add: pos_divide_less_eq mult.commute)
  assume n: "- 1022 \<le> exponent x"
  then have u: "exponent x = ulp_exponent x + 52" by (simp add: ulp_exponent_def)
  have "(2::real) powi exponent x = 2 powi ulp_exponent x * 2 ^ 52"
    unfolding u by (simp add: power_int_add)
  then have "2 powi ulp_exponent x * 2 ^ 52 \<le> \<bar>x\<bar>" using b by linarith
  then show "2 ^ 52 \<le> \<bar>x\<bar> / 2 powi ulp_exponent x"
    by (simp add: pos_le_divide_eq mult.commute)
qed

lemma round_to_double_zero [simp]: "round_to_double 0 = 0"
  by (simp add: round_to_double_def round_even_def)

lemma round_to_double_nonneg: "0 \<le> x \<Longrightarrow> 0 \<le> round_to_double x"
  by (simp add: round_to_double_def round_even_nonneg)

lemma round_to_double_mono:
  assumes "0 \<le> x" "x \<le> y"
  shows "round_to_double x \<le> round_to_double y"
proof (cases "x = 0")
  case True
  then show ?thesis using assms round_to_double_nonneg [of y] by simp
next
  case False
  then have x: "0 < x" and y: "0 < y" using assms by simp_all
  let ?kx = "ulp_exponent x" and ?ky = "ulp_exponent y"
  have k: "?kx \<le> ?ky" using x assms(2) by (rule ulp_exponent_mono)
  show ?thesis
  proof (cases "?kx = ?ky")
    case True
    have "x / 2 powi ?ky \<le> y / 2 powi ?ky" using assms(2) by (simp add: divide_right_mono)
    then have "round_even (x / 2 powi ?ky) \<le> round_even (y / 2 powi ?ky)"
      by (rule round_even_mono)
    then show ?thesis unfolding round_to_double_def True by simp
  next
    case False
    then have lt: "?kx < ?ky" using k by simp
    have ey: "- 1022 < exponent y" "exponent y = ?ky + 52" "exponent x + 1 \<le> exponent y"
      using lt by (simp_all add: ulp_exponent_def max_def split: if_splits)
    let ?B = "(2::real) powi exponent y"
    have "2 ^ 52 \<le> \<bar>y\<bar> / 2 powi ?ky" using scaled_bounds(2) [of y] y ey(1) by simp
    then have "(2::real) ^ 52 \<le> y / 2 powi ?ky" using y by simp
    then have "of_int (2 ^ 52) \<le> y / 2 powi ?ky" by simp
    then have "2 ^ 52 \<le> round_even (y / 2 powi ?ky)" by (rule round_even_ge_int)
    then have "(2::real) ^ 52 \<le> of_int (round_even (y / 2 powi ?ky))"
      by (metis of_int_le_iff of_int_numeral of_int_power)
    then have "2 ^ 52 * 2 powi ?ky \<le> round_to_double y"
      unfolding round_to_double_def by (simp add: mult_right_mono)
    moreover have "?B = 2 ^ 52 * 2 powi ?ky" unfolding ey(2) by (simp add: power_int_add)
    ultimately have hi: "?B \<le> round_to_double y" by simp
    define d where "d = nat (exponent y - ?kx)"
    have dk: "exponent y = ?kx + int d" using lt ey(2) by (simp add: d_def)
    have Bd: "?B = 2 ^ d * 2 powi ?kx" unfolding dk by (simp add: power_int_add)
    have "x < 2 powi (exponent x + 1)" using exponent_bounds [of x] x by simp
    also have "\<dots> \<le> ?B" using ey(3) by (simp only: two_powi_le_iff)
    finally have "x < 2 ^ d * 2 powi ?kx" using Bd by simp
    then have "x / 2 powi ?kx \<le> 2 ^ d" by (simp add: pos_divide_le_eq)
    then have "x / 2 powi ?kx \<le> of_int (2 ^ d)" by simp
    then have "round_even (x / 2 powi ?kx) \<le> 2 ^ d" by (rule round_even_le_int)
    then have "of_int (round_even (x / 2 powi ?kx)) \<le> (2::real) ^ d"
      by (metis of_int_le_iff of_int_numeral of_int_power)
    then have "round_to_double x \<le> 2 ^ d * 2 powi ?kx"
      unfolding round_to_double_def by (simp add: mult_right_mono)
    then have lo: "round_to_double x \<le> ?B" using Bd by simp
    show ?thesis using lo hi by linarith
  qed
qed

lemma round_to_double_integral:
  assumes "x / 2 powi ulp_exponent x = of_int m"
  shows "round_to_double x = x"
  unfolding round_to_double_def assms round_even_int
  using assms by (simp add: field_simps)

lemma scaled_integral:
  assumes "0 < U" "K = U * 2 ^ d"
  shows "of_int n * K / U = (of_int (n * 2 ^ d) :: real)"
  using assms by simp

lemma round_to_double_fixed:
  assumes n: "\<bar>n\<bar> \<le> 2 ^ 53" and k: "- 1074 \<le> k"
  shows "round_to_double (of_int n * 2 powi k) = of_int n * 2 powi k"
proof (cases "n = 0")
  case True
  then show ?thesis by simp
next
  case False
  let ?y = "of_int n * (2::real) powi k"
  have y0: "?y \<noteq> 0" using False by simp
  have ay: "\<bar>?y\<bar> = of_int \<bar>n\<bar> * 2 powi k" by (simp add: abs_mult)
  show ?thesis
  proof (cases "\<bar>n\<bar> = 2 ^ 53")
    case True
    have a: "\<bar>?y\<bar> = 2 powi (k + 53)" unfolding ay True by (simp add: power_int_add)
    have "(2::real) powi (k + 53) < 2 powi (k + 53 + 1)"
      by (simp only: two_powi_less_iff)
    then have "2 powi (k + 53) \<le> \<bar>?y\<bar>" "\<bar>?y\<bar> < 2 powi (k + 53 + 1)"
      using a by linarith+
    then have "exponent ?y = k + 53" by (rule exponent_unique)
    then have u: "ulp_exponent ?y = k + 1" using k by (simp add: ulp_exponent_def)
    have "even n" using True by (metis even_abs_add_iff even_add even_numeral even_power zero_less_numeral)
    then obtain m where m: "n = 2 * m" by (auto elim: evenE)
    have "?y / 2 powi ulp_exponent ?y = ?y / 2 powi (k + 1)" by (simp only: u)
    also have "\<dots> = of_int m" unfolding m by (simp add: power_int_add)
    finally show ?thesis by (rule round_to_double_integral)
  next
    case False
    then have "\<bar>n\<bar> < 2 ^ 53" using n by simp
    then have "real_of_int \<bar>n\<bar> < 2 ^ 53"
      by (metis of_int_less_iff of_int_numeral of_int_power)
    then have "\<bar>?y\<bar> < 2 ^ 53 * 2 powi k" unfolding ay by simp
    also have "\<dots> = 2 powi (k + 53)" by (simp add: power_int_add)
    finally have "2 powi exponent ?y < (2::real) powi (k + 53)"
      using exponent_bounds [OF y0] by linarith
    then have "exponent ?y < k + 53" by (simp only: two_powi_less_iff)
    then have u: "ulp_exponent ?y \<le> k" using k by (simp add: ulp_exponent_def)
    define d where "d = nat (k - ulp_exponent ?y)"
    have kd: "k = ulp_exponent ?y + int d" using u by (simp add: d_def)
    have K: "(2::real) powi k = 2 powi ulp_exponent ?y * 2 ^ d"
      by (subst kd) (simp add: power_int_add)
    have "?y / 2 powi ulp_exponent ?y = of_int (n * 2 ^ d)"
      by (rule scaled_integral [OF _ K]) simp
    then show ?thesis by (rule round_to_double_integral)
  qed
qed

lemma round_to_double_idem: "round_to_double (round_to_double x) = round_to_double x"
proof (cases "x = 0")
  case True
  then show ?thesis by simp
next
  case False
  let ?s = "x / 2 powi ulp_exponent x"
  have "\<bar>x\<bar> / 2 powi ulp_exponent x < 2 ^ 53" using scaled_bounds(1) [OF False] .
  moreover have "\<bar>?s\<bar> = \<bar>x\<bar> / 2 powi ulp_exponent x" by (simp add: abs_divide)
  ultimately have "?s \<le> 2 ^ 53" "- (2 ^ 53) \<le> ?s" by linarith+
  then have "?s \<le> of_int (2 ^ 53)" "of_int (- (2 ^ 53)) \<le> ?s" by simp_all
  then have "round_even ?s \<le> 2 ^ 53" "- (2 ^ 53) \<le> round_even ?s"
    using round_even_le_int round_even_ge_int by blast+
  then have n: "\<bar>round_even ?s\<bar> \<le> 2 ^ 53" by simp
  have k: "- 1074 \<le> ulp_exponent x" by (simp add: ulp_exponent_def)
  show ?thesis
    using round_to_double_fixed [OF n k] by (simp add: round_to_double_def)
qed

lemma round_to_double_error:
  "\<bar>round_to_double x - x\<bar> \<le> 2 powi ulp_exponent x / 2"
proof -
  let ?u = "(2::real) powi ulp_exponent x"
  have "\<bar>of_int (round_even (x / ?u)) - x / ?u\<bar> \<le> 1 / 2" by (rule round_even_error)
  then have "\<bar>of_int (round_even (x / ?u)) - x / ?u\<bar> * ?u \<le> 1 / 2 * ?u"
    by (intro mult_right_mono) simp_all
  moreover have "\<bar>of_int (round_even (x / ?u)) - x / ?u\<bar> * ?u
      = \<bar>(of_int (round_even (x / ?u)) - x / ?u) * ?u\<bar>"
    by (simp add: abs_mult)
  moreover have "(of_int (round_even (x / ?u)) - x / ?u) * ?u
      = of_int (round_even (x / ?u)) * ?u - x"
    by (simp add: left_diff_distrib)
  ultimately show ?thesis by (simp add: round_to_double_def)
qed

lemma round_to_double_error_unit:
  assumes "0 \<le> x" "x \<le> 1"
  shows "\<bar>round_to_double x - x\<bar> \<le> 1 / 2 ^ 53"
proof (cases "x = 0")
  case True
  then show ?thesis by simp
next
  case False
  have "2 powi exponent x \<le> \<bar>x\<bar>" using exponent_bounds [OF False] by simp
  also have "\<bar>x\<bar> < 2 powi 1" using assms by simp
  finally have "exponent x < 1" by (simp only: two_powi_less_iff)
  then have "ulp_exponent x \<le> - int 52" by (simp add: ulp_exponent_def)
  then have "(2::real) powi ulp_exponent x \<le> 2 powi (- int 52)"
    by (simp only: two_powi_le_iff)
  then have "(2::real) powi ulp_exponent x \<le> inverse (2 ^ 52)"
    by (simp only: power_int_minus power_int_of_nat)
  then have "(2::real) powi ulp_exponent x / 2 \<le> 1 / 2 ^ 53" by simp
  then show ?thesis using round_to_double_error [of x] by linarith
qed

lemma to_double_Fin:
  "\<bar>round_to_double x\<bar> < 2 ^ 1024 \<Longrightarrow> to_double x = Fin (round_to_double x)"
  by (simp add: to_double_def)

lemma to_double_bounded:
  assumes "0 \<le> x" "x \<le> B" "round_to_double B = B" "B < 2 ^ 1024"
  shows "\<exists>y. to_double x = Fin y \<and> 0 \<le> y \<and> y \<le> B \<and> round_to_double y = y"
proof -
  let ?y = "round_to_double x"
  have 0: "0 \<le> ?y" using assms(1) by (rule round_to_double_nonneg)
  have "?y \<le> round_to_double B" using assms(1,2) by (rule round_to_double_mono)
  then have B: "?y \<le> B" using assms(3) by simp
  have "to_double x = Fin ?y" using 0 B assms(4) by (intro to_double_Fin) simp
  then show ?thesis using 0 B round_to_double_idem by blast
qed

lemma to_double_nonneg_cases:
  assumes "0 \<le> x"
  shows "to_double x = PosInf
    \<or> (\<exists>y. to_double x = Fin y \<and> 0 \<le> y \<and> round_to_double y = y)"
proof (cases "2 ^ 1024 \<le> \<bar>round_to_double x\<bar>")
  case True
  then show ?thesis using assms by (simp add: to_double_def signed_inf_def)
next
  case False
  then have "to_double x = Fin (round_to_double x)" by (simp add: to_double_def)
  then show ?thesis using round_to_double_nonneg [OF assms] round_to_double_idem by blast
qed

lemma double_constants:
  "round_to_double 1 = 1" "round_to_double 2 = 2" "round_to_double 3 = 3"
  "round_to_double (1 / 4) = 1 / 4" "round_to_double (1 / 2) = 1 / 2"
  "round_to_double (3 / 4) = 3 / 4"
  using round_to_double_fixed [of 1 0] round_to_double_fixed [of 2 0]
    round_to_double_fixed [of 3 0] round_to_double_fixed [of 1 "- 2"]
    round_to_double_fixed [of 1 "- 1"] round_to_double_fixed [of 3 "- 2"]
  by (simp_all add: power_int_minus)

lemma to_double_constants [simp]:
  "to_double 0 = Fin 0" "to_double 1 = Fin 1" "to_double (1 / 4) = Fin (1 / 4)"
  "to_double (1 / 2) = Fin (1 / 2)" "to_double (3 / 4) = Fin (3 / 4)"
  by (simp_all add: to_double_def double_constants)

subsection \<open>The aggregator\<close>

lemma to_double_unit:
  assumes "0 \<le> x" "x \<le> B" "round_to_double B = B" "B \<le> 1"
  shows "\<exists>y. to_double x = Fin y \<and> 0 \<le> y \<and> y \<le> B \<and> \<bar>y - x\<bar> \<le> 1 / 2 ^ 53"
proof -
  let ?y = "round_to_double x"
  have 0: "0 \<le> ?y" using assms(1) by (rule round_to_double_nonneg)
  have "?y \<le> round_to_double B" using assms(1,2) by (rule round_to_double_mono)
  then have B: "?y \<le> B" using assms(3) by simp
  have "\<bar>?y\<bar> < 2 ^ 1024" using 0 B assms(4) by simp
  then have "to_double x = Fin ?y" by (rule to_double_Fin)
  moreover have "\<bar>?y - x\<bar> \<le> 1 / 2 ^ 53"
    using assms by (intro round_to_double_error_unit) simp_all
  ultimately show ?thesis using 0 B by blast
qed

lemma quarter:
  assumes "0 \<le> l" "l \<le> 1"
  shows "\<exists>t. num_mul (Fin 0.25) (Fin l) = Fin t \<and> 0 \<le> t \<and> t \<le> 1 / 4
    \<and> \<bar>t - 0.25 * l\<bar> \<le> 1 / 2 ^ 53"
  using to_double_unit [of "0.25 * l" "1 / 4"] assms by (simp add: double_constants)

lemma add_in_unit:
  assumes "0 \<le> a" "a \<le> A" "0 \<le> b" "b \<le> 1 / 4" "round_to_double (A + 1 / 4) = A + 1 / 4"
    "A + 1 / 4 \<le> 1"
  shows "\<exists>s. num_add (Fin a) (Fin b) = Fin s \<and> 0 \<le> s \<and> s \<le> A + 1 / 4
    \<and> \<bar>s - (a + b)\<bar> \<le> 1 / 2 ^ 53"
  using to_double_unit [of "a + b" "A + 1 / 4"] assms by simp

lemma calculate_net_score_unit:
  assumes "0 \<le> l" "l \<le> 1" "0 \<le> r" "r \<le> 1" "0 \<le> c" "c \<le> 1" "0 \<le> m" "m \<le> 1"
  shows "\<exists>s. calculate_net_score (Fin l) (Fin r) (Fin c) (Fin m) = Fin s \<and> 0 \<le> s \<and> s \<le> 1
    \<and> \<bar>s - (0.25 * l + 0.25 * r + 0.25 * c + 0.25 * m)\<bar> \<le> 1 / 2 ^ 50"
proof -
  obtain t1 where t1: "num_mul (Fin 0.25) (Fin l) = Fin t1" "0 \<le> t1" "t1 \<le> 1 / 4"
      "\<bar>t1 - 0.25 * l\<bar> \<le> 1 / 2 ^ 53"
    using quarter [OF assms(1,2)] by blast
  obtain t2 where t2: "num_mul (Fin 0.25) (Fin r) = Fin t2" "0 \<le> t2" "t2 \<le> 1 / 4"
      "\<bar>t2 - 0.25 * r\<bar> \<le> 1 / 2 ^ 53"
    using quarter [OF assms(3,4)] by blast
  obtain t3 where t3: "num_mul (Fin 0.25) (Fin c) = Fin t3" "0 \<le> t3" "t3 \<le> 1 / 4"
      "\<bar>t3 - 0.25 * c\<bar> \<le> 1 / 2 ^ 53"
    using quarter [OF assms(5,6)] by blast
  obtain t4 where t4: "num_mul (Fin 0.25) (Fin m) = Fin t4" "0 \<le> t4" "t4 \<le> 1 / 4"
      "\<bar>t4 - 0.25 * m\<bar> \<le> 1 / 2 ^ 53"
    using quarter [OF assms(7,8)] by blast
  obtain s1 where s1: "num_add (Fin t1) (Fin t2) = Fin s1" "0 \<le> s1" "s1 \<le> 1 / 4 + 1 / 4"
      "\<bar>s1 - (t1 + t2)\<bar> \<le> 1 / 2 ^ 53"
    using add_in_unit [of t1 "1 / 4" t2] t1 t2 by (auto simp: double_constants)
  obtain s2 where s2: "num_add (Fin s1) (Fin t3) = Fin s2" "0 \<le> s2" "s2 \<le> 1 / 2 + 1 / 4"
      "\<bar>s2 - (s1 + t3)\<bar> \<le> 1 / 2 ^ 53"
    using add_in_unit [of s1 "1 / 2" t3] s1 t3 by (auto simp: double_constants)
  obtain s3 where s3: "num_add (Fin s2) (Fin t4) = Fin s3" "0 \<le> s3" "s3 \<le> 3 / 4 + 1 / 4"
      "\<bar>s3 - (s2 + t4)\<bar> \<le> 1 / 2 ^ 53"
    using add_in_unit [of s2 "3 / 4" t4] s2 t4 by (auto simp: double_constants)
  have r: "calculate_net_score (Fin l) (Fin r) (Fin c) (Fin m) = Fin s3"
    by (simp only: calculate_net_score_def t1 t2 t3 t4 s1 s2 s3)
  have "\<bar>s3 - (0.25 * l + 0.25 * r + 0.25 * c + 0.25 * m)\<bar> \<le> 7 / 2 ^ 53"
    using t1(4) t2(4) t3(4) t4(4) s1(4) s2(4) s3(4) by linarith
  moreover have "(7::real) / 2 ^ 53 \<le> 1 / 2 ^ 50" by simp
  ultimately have "\<bar>s3 - (0.25 * l + 0.25 * r + 0.25 * c + 0.25 * m)\<bar> \<le> 1 / 2 ^ 50"
    by linarith
  then show ?thesis using r s3(2,3) by auto
qed

lemma calculate_net_score_no_rampup:
  assumes "0 \<le> l" "l \<le> 1" "0 \<le> c" "c \<le> 1" "0 \<le> m" "m \<le> 1"
  shows "\<exists>s. calculate_net_score (Fin l) (Fin 0) (Fin c) (Fin m) = Fin s \<and> s \<le> 0.75"
proof -
  obtain t1 where t1: "num_mul (Fin 0.25) (Fin l) = Fin t1" "0 \<le> t1" "t1 \<le> 1 / 4"
    using quarter [OF assms(1,2)] by blast
  have t2: "num_mul (Fin 0.25) (Fin 0) = Fin 0" by simp
  obtain t3 where t3: "num_mul (Fin 0.25) (Fin c) = Fin t3" "0 \<le> t3" "t3 \<le> 1 / 4"
    using quarter [OF assms(3,4)] by blast
  obtain t4 where t4: "num_mul (Fin 0.25) (Fin m) = Fin t4" "0 \<le> t4" "t4 \<le> 1 / 4"
    using quarter [OF assms(5,6)] by blast
  obtain s1 where s1: "num_add (Fin t1) (Fin 0) = Fin s1" "0 \<le> s1" "s1 \<le> 1 / 4"
    using to_double_unit [of "t1 + 0" "1 / 4"] t1 by (auto simp: double_constants)
  obtain s2 where s2: "num_add (Fin s1) (Fin t3) = Fin s2" "0 \<le> s2" "s2 \<le> 1 / 4 + 1 / 4"
    using add_in_unit [of s1 "1 / 4" t3] s1 t3 by (auto simp: double_constants)
  obtain s3 where s3: "num_add (Fin s2) (Fin t4) = Fin s3" "0 \<le> s3" "s3 \<le> 1 / 2 + 1 / 4"
    using add_in_unit [of s2 "1 / 2" t4] s2 t4 by (auto simp: double_constants)
  have "calculate_net_score (Fin l) (Fin 0) (Fin c) (Fin m) = Fin s3"
    by (simp only: calculate_net_score_def t1 t2 t3 t4 s1 s2 s3)
  then show ?thesis using s3(3) by auto
qed

lemma calculate_net_score_points:
  "calculate_net_score (Fin 1) (Fin 0) (Fin 0) (Fin 0) = Fin 0.25"
  "calculate_net_score (Fin 0) (Fin 1) (Fin 0) (Fin 0) = Fin 0.25"
  "calculate_net_score (Fin 0) (Fin 0) (Fin 1) (Fin 0) = Fin 0.25"
  "calculate_net_score (Fin 0) (Fin 0) (Fin 0) (Fin 1) = Fin 0.25"
  "calculate_net_score (Fin 1) (Fin 1) (Fin 1) (Fin 1) = Fin 1"
  "calculate_net_score (Fin 0) (Fin 0) (Fin 0) (Fin 0) = Fin 0"
  "calculate_net_score (Fin 1) (Fin 0) (Fin 1) (Fin 0) = Fin 0.5"
  "calculate_net_score (Fin 1) (Fin 0) (Fin 1) (Fin 1) = Fin 0.75"
  by (simp_all add: calculate_net_score_def)

text \<open>
  C8, as the code has it: the aggregator adds the four sub-scores, each weighted 0.25, in
  double arithmetic.  A single sub-score of 1 contributes 0.25, whichever it is; the net
  score is 1 for (1,1,1,1), 0 for (0,0,0,0) and 0.5 for (1,0,1,0); and for four sub-scores
  in [0,1] it is a finite number in [0,1] within \<open>2\<^sup>-\<^sup>5\<^sup>0\<close> of the exact weighted sum.
\<close>

theorem calculate_net_score_weighted_mean:
  "calculate_net_score (Fin 1) (Fin 0) (Fin 0) (Fin 0) = Fin 0.25
   \<and> calculate_net_score (Fin 0) (Fin 1) (Fin 0) (Fin 0) = Fin 0.25
   \<and> calculate_net_score (Fin 0) (Fin 0) (Fin 1) (Fin 0) = Fin 0.25
   \<and> calculate_net_score (Fin 0) (Fin 0) (Fin 0) (Fin 1) = Fin 0.25
   \<and> calculate_net_score (Fin 1) (Fin 1) (Fin 1) (Fin 1) = Fin 1
   \<and> calculate_net_score (Fin 0) (Fin 0) (Fin 0) (Fin 0) = Fin 0
   \<and> calculate_net_score (Fin 1) (Fin 0) (Fin 1) (Fin 0) = Fin 0.5
   \<and> (0 \<le> l \<and> l \<le> 1 \<and> 0 \<le> r \<and> r \<le> 1 \<and> 0 \<le> c \<and> c \<le> 1 \<and> 0 \<le> m \<and> m \<le> 1 \<longrightarrow>
        (\<exists>s. calculate_net_score (Fin l) (Fin r) (Fin c) (Fin m) = Fin s \<and> 0 \<le> s \<and> s \<le> 1
           \<and> \<bar>s - (0.25 * l + 0.25 * r + 0.25 * c + 0.25 * m)\<bar> \<le> 1 / 2 ^ 50))"
  using calculate_net_score_unit [of l r c m] by (simp add: calculate_net_score_points)

theorem calculate_net_score_weighted_mean_witness:
  "(0::real) \<le> 0.5 \<and> (0.5::real) \<le> 1 \<and> (0::real) \<le> 0.25 \<and> (0.25::real) \<le> 1
   \<and> (0::real) \<le> 0.75 \<and> (0.75::real) \<le> 1
   \<and> (\<exists>s. calculate_net_score (Fin 0.5) (Fin 0) (Fin 0.25) (Fin 0.75) = Fin s
          \<and> 0 \<le> s \<and> s \<le> 1
          \<and> \<bar>s - (0.25 * 0.5 + 0.25 * 0 + 0.25 * 0.25 + 0.25 * 0.75)\<bar> \<le> 1 / 2 ^ 50)"
  using calculate_net_score_weighted_mean [of "0.5" 0 "0.25" "0.75"] by simp

text \<open>
  The claim read as an equality of real numbers fails: for the sub-scores 0, 0, 0.362 and
  0.3 (the doubles so written) the code returns 0.16549999999999998, which is neither the
  exact weighted sum of the four doubles nor the double 0.1655.
\<close>

theorem calculate_net_score_counterexample:
  "to_double 0.362 = Fin (3260606130216239 / 2 ^ 53)
   \<and> to_double 0.3 = Fin (5404319552844595 / 2 ^ 54)
   \<and> calculate_net_score (Fin 0) (Fin 0) (Fin (3260606130216239 / 2 ^ 53))
        (Fin (5404319552844595 / 2 ^ 54)) = Fin (745345738329817 / 2 ^ 52)
   \<and> (745345738329817 / 2 ^ 52 :: real)
        \<noteq> 0.25 * 0 + 0.25 * 0 + 0.25 * (3260606130216239 / 2 ^ 53)
            + 0.25 * (5404319552844595 / 2 ^ 54)
   \<and> to_double 0.1655 = Fin (5962765906638537 / 2 ^ 55)
   \<and> (745345738329817 / 2 ^ 52 :: real) \<noteq> 5962765906638537 / 2 ^ 55"
  by (simp add: calculate_net_score_def to_double_def round_to_double_def ulp_exponent_def
      exponent_def round_even_def Let_def compute_floorlog power_int_minus)

subsection \<open>The correctness score\<close>

lemma to_double_FinD: "to_double x = Fin d \<Longrightarrow> d = round_to_double x"
  by (auto simp: to_double_def Let_def signed_inf_def split: if_splits)

lemma nonneg_double_to_double: "0 \<le> x \<Longrightarrow> nonneg_double (to_double x)"
  using to_double_nonneg_cases [of x] by (auto simp: nonneg_double_def)

lemma nonneg_double_count_of: "nonneg_double (count_of n)"
  by (simp add: count_of_def nonneg_double_to_double)

lemma count_of_exact:
  assumes "n \<le> 2 ^ 53"
  shows "count_of n = Fin (real n)"
proof -
  have "real n \<le> real (2 ^ 53)" using assms by (simp only: of_nat_le_iff)
  then have b: "real n \<le> 2 ^ 53" by simp
  have "\<bar>int n\<bar> \<le> 2 ^ 53" using assms by simp
  then have "round_to_double (of_int (int n) * 2 powi 0) = of_int (int n) * 2 powi 0"
    by (rule round_to_double_fixed) simp
  then have f: "round_to_double (real n) = real n" by simp
  have "\<bar>round_to_double (real n)\<bar> < 2 ^ 1024" unfolding f using b by simp
  then show ?thesis unfolding count_of_def using f by (simp add: to_double_Fin)
qed

lemma ratio_unit:
  assumes "nonneg_double a" "nonneg_double b"
  shows "\<exists>r. js_or (num_div b (num_add a b)) (Fin 0) = Fin r \<and> 0 \<le> r \<and> r \<le> 1"
proof (cases a)
  case (Fin u)
  show ?thesis
  proof (cases b)
    case (Fin v)
    have u: "0 \<le> u" and v: "0 \<le> v" "round_to_double v = v"
      using assms \<open>a = Fin u\<close> Fin by (simp_all add: nonneg_double_def)
    consider "to_double (u + v) = PosInf"
      | d where "to_double (u + v) = Fin d" "0 \<le> d"
      using to_double_nonneg_cases [of "u + v"] u v by auto
    then show ?thesis
    proof cases
      case 1
      then show ?thesis using \<open>a = Fin u\<close> Fin by (simp add: js_or_def)
    next
      case 2
      have "round_to_double v \<le> round_to_double (u + v)"
        using u v by (intro round_to_double_mono) simp_all
      then have vd: "v \<le> d" using v(2) to_double_FinD [OF 2(1)] by simp
      show ?thesis
      proof (cases "d = 0")
        case True
        then have "v = 0" using vd v by simp
        then show ?thesis using \<open>a = Fin u\<close> Fin 2 True by (simp add: js_or_def)
      next
        case False
        then have dpos: "0 < d" using 2(2) by simp
        have "0 \<le> v / d" "v / d \<le> 1" using v vd dpos by simp_all
        then obtain q where q: "to_double (v / d) = Fin q" "0 \<le> q" "q \<le> 1"
          using to_double_bounded [of "v / d" 1] by (auto simp: double_constants)
        then show ?thesis using \<open>a = Fin u\<close> Fin 2 False by (auto simp: js_or_def)
      qed
    qed
  next
    case PosInf
    then show ?thesis using \<open>a = Fin u\<close> by (simp add: js_or_def)
  next
    case NegInf
    then show ?thesis using assms by (simp add: nonneg_double_def)
  next
    case NaN
    then show ?thesis using assms by (simp add: nonneg_double_def)
  qed
next
  case PosInf
  then show ?thesis using assms(2) by (cases b) (simp_all add: js_or_def nonneg_double_def)
next
  case NegInf
  then show ?thesis using assms by (simp add: nonneg_double_def)
next
  case NaN
  then show ?thesis using assms by (simp add: nonneg_double_def)
qed

lemma recentCommitRatio_unit:
  assumes "nonneg_double c"
  shows "\<exists>r. recentCommitRatio_of c = Fin r \<and> 0 \<le> r \<and> r \<le> 1"
proof (cases c)
  case (Fin v)
  then have v: "0 \<le> v" using assms by (simp add: nonneg_double_def)
  consider "to_double (v / 30) = PosInf" | q where "to_double (v / 30) = Fin q" "0 \<le> q"
    using to_double_nonneg_cases [of "v / 30"] v by auto
  then show ?thesis
    using Fin by cases (auto simp: recentCommitRatio_of_def Math_min_def)
next
  case PosInf
  then show ?thesis by (simp add: recentCommitRatio_of_def Math_min_def signed_inf_def)
next
  case NegInf
  then show ?thesis using assms by (simp add: nonneg_double_def)
next
  case NaN
  then show ?thesis using assms by (simp add: nonneg_double_def)
qed

lemma mean_unit:
  assumes "0 \<le> i" "i \<le> 1" "0 \<le> p" "p \<le> 1" "0 \<le> r" "r \<le> 1"
  shows "\<exists>m. num_div (num_add (num_add (Fin i) (Fin p)) (Fin r)) (Fin 3) = Fin m
    \<and> 0 \<le> m \<and> m \<le> 1"
proof -
  obtain s1 where s1: "to_double (i + p) = Fin s1" "0 \<le> s1" "s1 \<le> 2"
    using to_double_bounded [of "i + p" 2] assms by (auto simp: double_constants)
  obtain s2 where s2: "to_double (s1 + r) = Fin s2" "0 \<le> s2" "s2 \<le> 3"
    using to_double_bounded [of "s1 + r" 3] assms s1 by (auto simp: double_constants)
  obtain m where m: "to_double (s2 / 3) = Fin m" "0 \<le> m" "m \<le> 1"
    using to_double_bounded [of "s2 / 3" 1] s2 by (auto simp: double_constants)
  show ?thesis using s1 s2 m by simp
qed

lemma toFixed3_unit:
  assumes "0 \<le> m" "m \<le> 1"
  shows "\<exists>s. toFixed3 (Fin m) = Fin s \<and> 0 \<le> s \<and> s \<le> 1"
proof -
  have "0 \<le> m * 1000" "m * 1000 \<le> 1000" using assms by simp_all
  then have "0 \<le> round_half_up (m * 1000)" "round_half_up (m * 1000) \<le> 1000"
    unfolding round_half_up_def by linarith+
  then have "0 \<le> real_of_int (round_half_up (m * 1000)) / 1000"
    "real_of_int (round_half_up (m * 1000)) / 1000 \<le> 1"
    by simp_all
  then obtain s where "to_double (real_of_int (round_half_up (m * 1000)) / 1000) = Fin s"
    "0 \<le> s" "s \<le> 1"
    using to_double_bounded [of "real_of_int (round_half_up (m * 1000)) / 1000" 1]
    by (auto simp: double_constants)
  moreover have "\<bar>m\<bar> < 10 ^ 21" using assms by simp
  ultimately show ?thesis using assms by simp
qed

lemma correctnessScore_of_unit:
  assumes "nonneg_double (issues_totalCount repo)" "nonneg_double (closedIssues_totalCount repo)"
    "nonneg_double (pullRequests_totalCount repo)" "nonneg_double (releases_totalCount repo)"
    "nonneg_double (history_totalCount repo)"
  shows "\<exists>s. correctnessScore_of repo = Fin s \<and> 0 \<le> s \<and> s \<le> 1"
proof -
  obtain i where i: "issueRatio_of (issues_totalCount repo) (closedIssues_totalCount repo)
      = Fin i" "0 \<le> i" "i \<le> 1"
    using ratio_unit [OF assms(1,2)] unfolding issueRatio_of_def by blast
  obtain p where p: "prRatio_of (pullRequests_totalCount repo) (releases_totalCount repo)
      = Fin p" "0 \<le> p" "p \<le> 1"
    using ratio_unit [OF assms(3,4)] unfolding prRatio_of_def by blast
  obtain r where r: "recentCommitRatio_of (history_totalCount repo) = Fin r" "0 \<le> r" "r \<le> 1"
    using recentCommitRatio_unit [OF assms(5)] by blast
  obtain m where m: "num_div (num_add (num_add (Fin i) (Fin p)) (Fin r)) (Fin 3) = Fin m"
      "0 \<le> m" "m \<le> 1"
    using mean_unit [OF i(2,3) p(2,3) r(2,3)] by blast
  have "Math_max (Fin 0) (Math_min1 (Fin m)) = Fin m"
    using m(2) by (simp add: Math_max_def Math_min1_def)
  then have "correctnessScore_of repo = toFixed3 (Fin m)"
    by (simp only: correctnessScore_of_def Let_def i p r m)
  then show ?thesis using toFixed3_unit [OF m(2,3)] by simp
qed

lemma calculate_correctness_metric_success:
  "field (fst (calculate_correctness_metric owner name (Inr repo) w)) ''correctnessScore''
     = Some (correctnessScore_of repo)"
  by (simp add: calculate_correctness_metric_def performance_now_def getLatency_def
      field_def Let_def)

text \<open>
  C6: for natural-number counts each of the three ratios is a finite number in [0,1], and
  so is the score; a ratio whose denominator is 0 is exactly 0.  None of them is NaN or
  an infinity.  (\<open>count_of n\<close> is \<open>Fin n\<close> for every count up to \<open>2\<^sup>5\<^sup>3\<close>, by
  \<open>count_of_exact\<close>; the statement covers larger counts as well.)
\<close>

theorem correctness_ratios_in_unit_interval:
  "(\<exists>r. issueRatio_of (count_of openIssues) (count_of closedIssues) = Fin r
        \<and> 0 \<le> r \<and> r \<le> 1)
   \<and> (\<exists>r. prRatio_of (count_of openPRs) (count_of releases) = Fin r \<and> 0 \<le> r \<and> r \<le> 1)
   \<and> (\<exists>r. recentCommitRatio_of (count_of recentCommits) = Fin r \<and> 0 \<le> r \<and> r \<le> 1)
   \<and> (\<exists>s. correctnessScore_of (counts openIssues closedIssues openPRs releases recentCommits)
          = Fin s \<and> 0 \<le> s \<and> s \<le> 1)
   \<and> issueRatio_of (Fin 0) (Fin 0) = Fin 0
   \<and> prRatio_of (Fin 0) (Fin 0) = Fin 0"
proof -
  have "\<exists>r. issueRatio_of (count_of openIssues) (count_of closedIssues) = Fin r
        \<and> 0 \<le> r \<and> r \<le> 1"
    unfolding issueRatio_of_def by (intro ratio_unit nonneg_double_count_of)
  moreover have "\<exists>r. prRatio_of (count_of openPRs) (count_of releases) = Fin r
        \<and> 0 \<le> r \<and> r \<le> 1"
    unfolding prRatio_of_def by (intro ratio_unit nonneg_double_count_of)
  moreover have "\<exists>r. recentCommitRatio_of (count_of recentCommits) = Fin r \<and> 0 \<le> r \<and> r \<le> 1"
    by (intro recentCommitRatio_unit nonneg_double_count_of)
  moreover have "\<exists>s. correctnessScore_of
        (counts openIssues closedIssues openPRs releases recentCommits) = Fin s
        \<and> 0 \<le> s \<and> s \<le> 1"
    by (intro correctnessScore_of_unit) (simp_all add: counts_def nonneg_double_count_of)
  moreover have "issueRatio_of (Fin 0) (Fin 0) = Fin 0 \<and> prRatio_of (Fin 0) (Fin 0) = Fin 0"
    by (simp add: issueRatio_of_def prRatio_of_def js_or_def)
  ultimately show ?thesis by blast
qed

lemma ratio_spec:
  assumes "nonneg_double a" "0 \<le> v" "round_to_double v = v"
  shows "js_or (num_div (Fin v) (num_add a (Fin v))) (Fin 0)
    = spec_ratio (Fin v) (num_add a (Fin v))"
proof (cases a)
  case (Fin u)
  then have u: "0 \<le> u" using assms(1) by (simp add: nonneg_double_def)
  consider "to_double (u + v) = PosInf"
    | d where "to_double (u + v) = Fin d" "0 \<le> d"
    using to_double_nonneg_cases [of "u + v"] u assms(2) by auto
  then show ?thesis
  proof cases
    case 1
    then show ?thesis using Fin by (simp add: js_or_def spec_ratio_def)
  next
    case 2
    have "round_to_double v \<le> round_to_double (u + v)"
      using u assms(2) by (intro round_to_double_mono) simp_all
    then have vd: "v \<le> d" using assms(3) to_double_FinD [OF 2(1)] by simp
    show ?thesis
    proof (cases "d = 0")
      case True
      then have "v = 0" using vd assms(2) by simp
      then show ?thesis using Fin 2 True by (simp add: js_or_def spec_ratio_def)
    next
      case False
      then have dpos: "0 < d" using 2(2) by simp
      have "0 \<le> v / d" "v / d \<le> 1" using assms(2) vd dpos by simp_all
      then obtain q where q: "to_double (v / d) = Fin q"
        using to_double_bounded [of "v / d" 1] by (auto simp: double_constants)
      then show ?thesis using Fin 2 False by (auto simp: js_or_def spec_ratio_def)
    qed
  qed
next
  case PosInf
  then show ?thesis by (simp add: js_or_def spec_ratio_def)
next
  case NegInf
  then show ?thesis using assms by (simp add: nonneg_double_def)
next
  case NaN
  then show ?thesis using assms by (simp add: nonneg_double_def)
qed

lemma correctnessScore_of_counts:
  assumes "closedIssues \<le> 2 ^ 53" "releases \<le> 2 ^ 53"
  shows "correctnessScore_of (counts openIssues closedIssues openPRs releases recentCommits)
    = spec_correctness_score openIssues closedIssues openPRs releases recentCommits"
proof -
  let ?oi = "count_of openIssues" and ?op = "count_of openPRs" and ?rc = "count_of recentCommits"
  have ci: "count_of closedIssues = Fin (real closedIssues)"
    and rel: "count_of releases = Fin (real releases)"
    using assms by (simp_all add: count_of_exact)
  have fci: "round_to_double (real closedIssues) = real closedIssues"
    using to_double_FinD [of "real closedIssues" "real closedIssues"] ci
    by (simp add: count_of_def)
  have frel: "round_to_double (real releases) = real releases"
    using to_double_FinD [of "real releases" "real releases"] rel
    by (simp add: count_of_def)
  have ir: "issueRatio_of ?oi (count_of closedIssues)
      = spec_ratio (count_of closedIssues) (num_add ?oi (count_of closedIssues))"
    unfolding ci issueRatio_of_def
    by (intro ratio_spec nonneg_double_count_of fci) simp
  have pr: "prRatio_of ?op (count_of releases)
      = spec_ratio (count_of releases) (num_add ?op (count_of releases))"
    unfolding rel prRatio_of_def
    by (intro ratio_spec nonneg_double_count_of frel) simp
  obtain i where i: "issueRatio_of ?oi (count_of closedIssues) = Fin i" "0 \<le> i" "i \<le> 1"
    using ratio_unit [OF nonneg_double_count_of nonneg_double_count_of]
    unfolding issueRatio_of_def by blast
  obtain p where p: "prRatio_of ?op (count_of releases) = Fin p" "0 \<le> p" "p \<le> 1"
    using ratio_unit [OF nonneg_double_count_of nonneg_double_count_of]
    unfolding prRatio_of_def by blast
  obtain r where r: "recentCommitRatio_of ?rc = Fin r" "0 \<le> r" "r \<le> 1"
    using recentCommitRatio_unit [OF nonneg_double_count_of] by blast
  obtain m where m: "num_div (num_add (num_add (Fin i) (Fin p)) (Fin r)) (Fin 3) = Fin m"
      "0 \<le> m" "m \<le> 1"
    using mean_unit [OF i(2,3) p(2,3) r(2,3)] by blast
  have code: "Math_max (Fin 0) (Math_min1 (Fin m)) = Fin m"
    using m(2) by (simp add: Math_max_def Math_min1_def)
  have spec: "spec_clamp (Fin m) (Fin 0) (Fin 1) = Fin m"
    using m(2,3) by (simp add: spec_clamp_def Math_max_def Math_min_def)
  have sel: "issues_totalCount (counts openIssues closedIssues openPRs releases recentCommits)
        = ?oi"
    "closedIssues_totalCount (counts openIssues closedIssues openPRs releases recentCommits)
        = count_of closedIssues"
    "pullRequests_totalCount (counts openIssues closedIssues openPRs releases recentCommits)
        = ?op"
    "releases_totalCount (counts openIssues closedIssues openPRs releases recentCommits)
        = count_of releases"
    "history_totalCount (counts openIssues closedIssues openPRs releases recentCommits) = ?rc"
    by (simp_all add: counts_def)
  have si: "spec_ratio (count_of closedIssues) (num_add ?oi (count_of closedIssues)) = Fin i"
    using ir i(1) by simp
  have sp: "spec_ratio (count_of releases) (num_add ?op (count_of releases)) = Fin p"
    using pr p(1) by simp
  have sr: "Math_min (num_div ?rc (Fin 30)) (Fin 1) = Fin r"
    using r(1) by (simp only: recentCommitRatio_of_def)
  have "correctnessScore_of (counts openIssues closedIssues openPRs releases recentCommits)
      = toFixed3 (Fin m)"
    by (simp only: correctnessScore_of_def Let_def sel i p r m code)
  moreover have "spec_correctness_score openIssues closedIssues openPRs releases recentCommits
      = toFixed3 (Fin m)"
    by (simp only: spec_correctness_score_def Let_def si sp sr m spec)
  ultimately show ?thesis by simp
qed

lemma scenario_score:
  "correctnessScore_of (counts 0 10 0 5 15) = Fin (3751498489599623 / 2 ^ 52)"
  by (simp add: correctnessScore_of_def counts_def count_of_def issueRatio_of_def
      prRatio_of_def recentCommitRatio_of_def js_or_def Math_min_def Math_min1_def Math_max_def
      round_half_up_def to_double_def round_to_double_def ulp_exponent_def exponent_def
      round_even_def Let_def compute_floorlog power_int_minus)

lemma to_double_833: "to_double 0.833 = Fin (3751498489599623 / 2 ^ 52)"
  by (simp add: to_double_def round_to_double_def ulp_exponent_def exponent_def
      round_even_def Let_def compute_floorlog power_int_minus)

text \<open>
  C4, as the code has it: on a successful query whose five counts are natural numbers up
  to \<open>2\<^sup>5\<^sup>3\<close>, the \<open>correctnessScore\<close> field of the calculator's result is the
  specification's formula evaluated in double arithmetic: the mean of the three ratios,
  clamped to [0,1] and rounded to three decimals.  For 0 open and 10 closed issues, 0 open
  pull requests, 5 releases and 15 recent commits it is 0.833.
\<close>

theorem correctness_score_formula:
  "(openIssues \<le> 2 ^ 53 \<and> closedIssues \<le> 2 ^ 53 \<and> openPRs \<le> 2 ^ 53 \<and> releases \<le> 2 ^ 53
      \<and> recentCommits \<le> 2 ^ 53 \<longrightarrow>
      field (fst (calculate_correctness_metric owner name
         (Inr (counts openIssues closedIssues openPRs releases recentCommits)) w))
       ''correctnessScore''
       = Some (spec_correctness_score openIssues closedIssues openPRs releases recentCommits))
   \<and> field (fst (calculate_correctness_metric owner name (Inr (counts 0 10 0 5 15)) w))
       ''correctnessScore'' = Some (to_double 0.833)"
proof -
  have "correctnessScore_of (counts 0 10 0 5 15) = to_double 0.833"
    using scenario_score to_double_833 by simp
  then show ?thesis
    by (simp add: calculate_correctness_metric_success correctnessScore_of_counts)
qed

theorem correctness_score_formula_witness:
  "(0::nat) \<le> 2 ^ 53 \<and> (10::nat) \<le> 2 ^ 53 \<and> (5::nat) \<le> 2 ^ 53 \<and> (15::nat) \<le> 2 ^ 53
   \<and> field (fst (calculate_correctness_metric (Some ''o'') (Some ''n'')
         (Inr (counts 0 10 0 5 15)) \<lparr>clock = real, reads = 0, trace = []\<rparr>)) ''correctnessScore''
       = Some (spec_correctness_score 0 10 0 5 15)
   \<and> field (fst (calculate_correctness_metric (Some ''o'') (Some ''n'')
         (Inr (counts 0 10 0 5 15)) \<lparr>clock = real, reads = 0, trace = []\<rparr>)) ''correctnessScore''
       = Some (to_double 0.833)"
proof -
  have h: "(0::nat) \<le> 2 ^ 53 \<and> (10::nat) \<le> 2 ^ 53 \<and> (5::nat) \<le> 2 ^ 53
      \<and> (15::nat) \<le> 2 ^ 53"
    by simp
  show ?thesis
    using h correctness_score_formula [of 0 10 0 5 15 "Some ''o''" "Some ''n''" "\<lparr>clock = real, reads = 0, trace = []\<rparr>"]
    by blast
qed

text \<open>
  The claim read in real arithmetic fails: for no issues, 3 open pull requests, 13
  releases and 6 recent commits the exact mean is 0.3375, which rounds to 0.338 whether a
  tie goes up or to the even neighbour, while the mean the code computes is the double
  just below 0.3375 and the score is 0.337.
\<close>

theorem correctness_score_counterexample:
  "exact_mean 0 0 3 13 6 = 0.3375
   \<and> exact_correctness_score 0 0 3 13 6 = 0.338
   \<and> real_of_int (round_even (exact_mean 0 0 3 13 6 * 1000)) / 1000 = 0.338
   \<and> field (fst (calculate_correctness_metric (Some ''o'') (Some ''n'')
         (Inr (counts 0 0 3 13 6)) \<lparr>clock = real, reads = 0, trace = []\<rparr>)) ''correctnessScore''
       = Some (Fin (6070852297695429 / 2 ^ 54))
   \<and> to_double 0.337 = Fin (6070852297695429 / 2 ^ 54)
   \<and> to_double 0.338 = Fin (6088866696204911 / 2 ^ 54)
   \<and> (6070852297695429 / 2 ^ 54 :: real) \<noteq> 6088866696204911 / 2 ^ 54
   \<and> (6070852297695429 / 2 ^ 54 :: real) \<noteq> 0.338"
proof -
  have m: "exact_mean 0 0 3 13 6 = 0.3375"
    by (simp add: exact_mean_def exact_ratio_def)
  have e: "exact_correctness_score 0 0 3 13 6 = 0.338
      \<and> real_of_int (round_even (exact_mean 0 0 3 13 6 * 1000)) / 1000 = 0.338"
    unfolding exact_correctness_score_def m by (simp add: round_def round_even_def)
  have c: "correctnessScore_of (counts 0 0 3 13 6) = Fin (6070852297695429 / 2 ^ 54)"
    by (simp add: correctnessScore_of_def counts_def count_of_def issueRatio_of_def
        prRatio_of_def recentCommitRatio_of_def js_or_def Math_min_def Math_min1_def
        Math_max_def round_half_up_def to_double_def round_to_double_def ulp_exponent_def
        exponent_def round_even_def Let_def compute_floorlog power_int_minus)
  have d: "to_double 0.337 = Fin (6070852297695429 / 2 ^ 54)
      \<and> to_double 0.338 = Fin (6088866696204911 / 2 ^ 54)"
    by (simp add: to_double_def round_to_double_def ulp_exponent_def exponent_def
        round_even_def Let_def compute_floorlog power_int_minus)
  show ?thesis using m e c d by (simp add: calculate_correctness_metric_success)
qed

subsection \<open>The License Classifier\<close>

lemma toLowerCase_char_idem: "toLowerCase_char (toLowerCase_char c) = toLowerCase_char c"
  by (simp add: toLowerCase_char_def Let_def)

lemma toLowerCase_idem: "toLowerCase (toLowerCase s) = toLowerCase s"
  by (simp add: toLowerCase_def toLowerCase_char_idem)

lemma String_includes_iff: "String_includes s p \<longleftrightarrow> (\<exists>a b. s = a @ p @ b)"
proof (induction s)
  case Nil
  then show ?case by auto
next
  case (Cons c s)
  show ?case
  proof
    assume "String_includes (c # s) p"
    then consider "prefix p (c # s)" | "String_includes s p" by auto
    then show "\<exists>a b. c # s = a @ p @ b"
    proof cases
      case 1
      then obtain b where "c # s = p @ b" by (auto simp: prefix_def)
      then have "c # s = [] @ p @ b" by simp
      then show ?thesis by blast
    next
      case 2
      then obtain a b where "s = a @ p @ b" using Cons.IH by blast
      then have "c # s = (c # a) @ p @ b" by simp
      then show ?thesis by blast
    qed
  next
    assume "\<exists>a b. c # s = a @ p @ b"
    then obtain a b where ab: "c # s = a @ p @ b" by blast
    show "String_includes (c # s) p"
    proof (cases a)
      case Nil
      then have "prefix p (c # s)" using ab by (simp add: prefix_def)
      then show ?thesis by simp
    next
      case (Cons x a')
      then have "s = a' @ p @ b" using ab by simp
      then have "String_includes s p" using Cons.IH by blast
      then show ?thesis by simp
    qed
  qed
qed

lemma String_includes_map:
  assumes "String_includes s p"
  shows "String_includes (map f s) (map f p)"
proof -
  obtain a b where "s = a @ p @ b" using assms by (auto simp: String_includes_iff)
  then have "map f s = map f a @ map f p @ map f b" by simp
  then show ?thesis unfolding String_includes_iff by blast
qed

lemma incompatiblePhrases_lower:
  "p \<in> set incompatiblePhrases \<Longrightarrow> toLowerCase p = p"
  by (auto simp: incompatiblePhrases_def toLowerCase_def toLowerCase_char_def)

lemma check_license_text_lower:
  "check_license_text (Some (toLowerCase licenseText)) = check_license_text (Some licenseText)"
  by (simp add: check_license_text_def toLowerCase_idem)

lemma restrictive_overrides:
  assumes "p \<in> set incompatiblePhrases" "String_includes (toLowerCase licenseText) p"
  shows "\<not> check_license_text (Some licenseText)"
proof -
  have "list_ex (\<lambda>phrase. opt_includes (Some (toLowerCase licenseText)) phrase) incompatiblePhrases"
    using assms unfolding list_ex_iff opt_includes_def by auto
  then show ?thesis by (simp add: check_license_text_def)
qed

text \<open>
  C7: the License Classifier is a function of its input alone (it takes no world, so
  equal inputs get equal answers); a string and its lower-cased form are classified alike;
  and a string that contains one of the three restrictive phrases, as written or in any
  letter case, is classified incompatible, whatever else it contains.
\<close>

theorem check_license_text_pure_case_insensitive:
  "(t = t' \<longrightarrow> check_license_text t = check_license_text t')
   \<and> check_license_text (Some (toLowerCase licenseText)) = check_license_text (Some licenseText)
   \<and> set incompatiblePhrases = {''not for use in'', ''not licensed for'', ''proprietary''}
   \<and> (p \<in> set incompatiblePhrases \<and> String_includes licenseText p
        \<longrightarrow> check_license_text (Some licenseText) = False)
   \<and> (p \<in> set incompatiblePhrases \<and> String_includes (toLowerCase licenseText) p
        \<longrightarrow> check_license_text (Some licenseText) = False)"
proof -
  have literal: "check_license_text (Some licenseText) = False"
    if "p \<in> set incompatiblePhrases" "String_includes licenseText p"
  proof -
    have "String_includes (toLowerCase licenseText) (toLowerCase p)"
      using that(2) unfolding toLowerCase_def by (rule String_includes_map)
    then have "String_includes (toLowerCase licenseText) p"
      using that(1) by (simp add: incompatiblePhrases_lower)
    then show ?thesis using that(1) restrictive_overrides by simp
  qed
  have "set incompatiblePhrases = {''not for use in'', ''not licensed for'', ''proprietary''}"
    by (simp add: incompatiblePhrases_def)
  then show ?thesis
    using literal restrictive_overrides [of p licenseText]
      check_license_text_lower [of licenseText]
    by blast
qed

theorem check_license_text_pure_case_insensitive_witness:
  "''proprietary'' \<in> set incompatiblePhrases
   \<and> String_includes ''mit license, but proprietary'' ''proprietary''
   \<and> String_includes (toLowerCase ''MIT License, but Proprietary'') ''proprietary''
   \<and> check_license_text (Some ''mit license, but proprietary'') = False
   \<and> check_license_text (Some ''MIT License, but Proprietary'') = False
   \<and> check_license_text (Some (toLowerCase ''MIT License'')) = True
   \<and> check_license_text (Some ''MIT License'') = True"
proof -
  have a: "''proprietary'' \<in> set incompatiblePhrases"
    by (simp add: incompatiblePhrases_def)
  have b: "String_includes ''mit license, but proprietary'' ''proprietary''"
    by simp
  have c: "String_includes (toLowerCase ''MIT License, but Proprietary'') ''proprietary''"
    by code_simp
  have d: "check_license_text (Some ''MIT License'') = True"
    by code_simp
  show ?thesis
    using a b c d
      check_license_text_pure_case_insensitive
        [of "Some ''MIT License''" "Some ''MIT License''" "''mit license, but proprietary''"
          "''proprietary''"]
      check_license_text_pure_case_insensitive
        [of "Some ''MIT License''" "Some ''MIT License''" "''MIT License, but Proprietary''"
          "''proprietary''"]
      check_license_text_pure_case_insensitive
        [of "Some ''MIT License''" "Some ''MIT License''" "''MIT License''" "''proprietary''"]
    by simp
qed

text \<open>
  C9: for an \<^verbatim>\<open>undefined\<close> argument and for the empty string the License Classifier answers
  false.
\<close>

theorem check_license_text_absent:
  "check_license_text None = False \<and> check_license_text (Some []) = False"
  by (simp add: check_license_text_def opt_includes_def toLowerCase_def
      compatibleLicenses_def permissivePhrases_def incompatiblePhrases_def)

subsection \<open>The responsiveness thresholds\<close>

lemma maxAcceptableResponseTime_value: "maxAcceptableResponseTime = Fin 604800000"
  by (simp add: maxAcceptableResponseTime_def to_double_def round_to_double_def
      ulp_exponent_def exponent_def round_even_def Let_def compute_floorlog power_int_minus)

lemma num_lt_threshold:
  "spec_is_average avg \<Longrightarrow> num_lt avg maxAcceptableResponseTime = spec_below_threshold avg"
  by (cases avg)
    (simp_all add: spec_is_average_def spec_below_threshold_def
      maxAcceptableResponseTime_value)

lemma foldl_pr_unresolved:
  "list_all pr_unresolved prs \<Longrightarrow> foldl (pr_step getTime) acc prs = acc"
  by (induction prs arbitrary: acc) (auto simp: pr_step_def pr_unresolved_def)

lemma foldl_issue_unresolved:
  "list_all issue_unresolved issues \<Longrightarrow> foldl (issue_step getTime) acc issues = acc"
  by (induction issues arbitrary: acc) (auto simp: issue_step_def issue_unresolved_def)

lemma calculate_responsiveness_metric_success:
  "field (fst (calculate_responsiveness_metric getTime owner name (Inr repo) w))
     ''responsivenessScore''
   = Some (responsivenessScore_of (avgPrResponseTime getTime (pullRequests_edges repo))
       (avgIssueResponseTime getTime (issues_edges repo)))"
  by (simp add: calculate_responsiveness_metric_def performance_now_def getLatency_def
      field_def Let_def)

text \<open>
  C3: for every reply, the calculator's \<open>responsivenessScore\<close> is the threshold policy on
  the two averages it computes: when each average is a nonnegative finite number or
  \<open>+\<infinity>\<close>, the score is 1 when both are below 604800000 ms, 0.7 when exactly one is,
  whichever side, and 0.3 otherwise, in particular for two infinite averages.  When no pull
  request and no issue of the reply is resolved, both averages are infinite and the score
  is 0.3.
\<close>

theorem responsiveness_thresholds:
  "(spec_is_average (avgPrResponseTime getTime (pullRequests_edges repo))
      \<and> spec_is_average (avgIssueResponseTime getTime (issues_edges repo)) \<longrightarrow>
      field (fst (calculate_responsiveness_metric getTime owner name (Inr repo) w))
        ''responsivenessScore''
      = Some (if spec_below_threshold (avgPrResponseTime getTime (pullRequests_edges repo))
                 \<and> spec_below_threshold (avgIssueResponseTime getTime (issues_edges repo))
              then Fin 1
              else if spec_below_threshold (avgPrResponseTime getTime (pullRequests_edges repo))
                 \<or> spec_below_threshold (avgIssueResponseTime getTime (issues_edges repo))
              then to_double 0.7
              else to_double 0.3))
   \<and> field (fst (calculate_responsiveness_metric getTime owner name (Inr repo) w))
        ''responsivenessScore''
      = Some (responsivenessScore_of (avgPrResponseTime getTime (pullRequests_edges repo))
          (avgIssueResponseTime getTime (issues_edges repo)))
   \<and> (spec_is_average avgPr \<and> spec_is_average avgIssue \<longrightarrow>
      responsivenessScore_of avgPr avgIssue =
        (if spec_below_threshold avgPr \<and> spec_below_threshold avgIssue then Fin 1
         else if spec_below_threshold avgPr \<or> spec_below_threshold avgIssue then to_double 0.7
         else to_double 0.3)
      \<and> responsivenessScore_of avgIssue avgPr = responsivenessScore_of avgPr avgIssue)
   \<and> responsivenessScore_of PosInf PosInf = to_double 0.3
   \<and> (list_all pr_unresolved prs \<and> list_all issue_unresolved issues \<longrightarrow>
        avgPrResponseTime getTime prs = PosInf
        \<and> avgIssueResponseTime getTime issues = PosInf
        \<and> field (fst (calculate_responsiveness_metric getTime owner name
              (Inr \<lparr>pullRequests_edges = prs, issues_edges = issues\<rparr>) w))
            ''responsivenessScore'' = Some (to_double 0.3))"
proof -
  have inf: "responsivenessScore_of PosInf PosInf = to_double 0.3"
    by (simp add: responsivenessScore_of_def maxAcceptableResponseTime_value)
  have avg: "avgPrResponseTime getTime prs = PosInf
      \<and> avgIssueResponseTime getTime issues = PosInf"
    if "list_all pr_unresolved prs" "list_all issue_unresolved issues"
    using that
    by (simp add: avgPrResponseTime_def avgIssueResponseTime_def foldl_pr_unresolved
        foldl_issue_unresolved average_def num_gt_def)
  show ?thesis
    using inf avg
    by (auto simp: responsivenessScore_of_def num_lt_threshold
        calculate_responsiveness_metric_success)
qed

theorem responsiveness_thresholds_witness:
  "avgPrResponseTime sample_getTime (pullRequests_edges reply_one_side) = Fin 86400000
   \<and> avgIssueResponseTime sample_getTime (issues_edges reply_one_side) = PosInf
   \<and> field (fst (calculate_responsiveness_metric sample_getTime (Some ''o'') (Some ''n'')
          (Inr reply_one_side) \<lparr>clock = real, reads = 0, trace = []\<rparr>)) ''responsivenessScore'' = Some (to_double 0.7)
   \<and> avgPrResponseTime sample_getTime (pullRequests_edges reply_both_sides) = Fin 86400000
   \<and> avgIssueResponseTime sample_getTime (issues_edges reply_both_sides) = Fin 86400000
   \<and> field (fst (calculate_responsiveness_metric sample_getTime (Some ''o'') (Some ''n'')
          (Inr reply_both_sides) \<lparr>clock = real, reads = 0, trace = []\<rparr>)) ''responsivenessScore'' = Some (Fin 1)
   \<and> avgPrResponseTime sample_getTime (pullRequests_edges reply_slow) = Fin 691200000
   \<and> avgIssueResponseTime sample_getTime (issues_edges reply_slow) = Fin 691200000
   \<and> field (fst (calculate_responsiveness_metric sample_getTime (Some ''o'') (Some ''n'')
          (Inr reply_slow) \<lparr>clock = real, reads = 0, trace = []\<rparr>)) ''responsivenessScore'' = Some (to_double 0.3)
   \<and> spec_is_average (Fin 1000) \<and> spec_is_average PosInf
   \<and> responsivenessScore_of (Fin 1000) PosInf = to_double 0.7
   \<and> responsivenessScore_of PosInf (Fin 1000) = to_double 0.7
   \<and> list_all pr_unresolved
        [\<lparr>pr_createdAt = ''1970-01-01T00:00:00Z'', pr_closedAt = None, pr_mergedAt = None,
          pr_state = ''OPEN''\<rparr>]
   \<and> list_all issue_unresolved
        [\<lparr>issue_createdAt = ''1970-01-02T00:00:00Z'', issue_closedAt = None,
          issue_state = ''OPEN''\<rparr>]
   \<and> field (fst (calculate_responsiveness_metric sample_getTime (Some ''o'') (Some ''n'')
          (Inr \<lparr>pullRequests_edges =
                  [\<lparr>pr_createdAt = ''1970-01-01T00:00:00Z'', pr_closedAt = None,
                    pr_mergedAt = None, pr_state = ''OPEN''\<rparr>],
                issues_edges =
                  [\<lparr>issue_createdAt = ''1970-01-02T00:00:00Z'', issue_closedAt = None,
                    issue_state = ''OPEN''\<rparr>]\<rparr>)
          \<lparr>clock = real, reads = 0, trace = []\<rparr>))
        ''responsivenessScore'' = Some (to_double 0.3)"
proof -
  have one: "avgPrResponseTime sample_getTime (pullRequests_edges reply_one_side)
        = Fin 86400000
      \<and> avgIssueResponseTime sample_getTime (issues_edges reply_one_side) = PosInf"
    by (simp add: reply_one_side_def avgPrResponseTime_def avgIssueResponseTime_def
        pr_step_def issue_step_def average_def num_gt_def num_sub_def str_or_def
        sample_getTime_def to_double_def round_to_double_def ulp_exponent_def exponent_def
        round_even_def Let_def compute_floorlog power_int_minus)
  have both: "avgPrResponseTime sample_getTime (pullRequests_edges reply_both_sides)
        = Fin 86400000
      \<and> avgIssueResponseTime sample_getTime (issues_edges reply_both_sides) = Fin 86400000"
    by (simp add: reply_both_sides_def avgPrResponseTime_def avgIssueResponseTime_def
        pr_step_def issue_step_def average_def num_gt_def num_sub_def str_or_def
        sample_getTime_def to_double_def round_to_double_def ulp_exponent_def exponent_def
        round_even_def Let_def compute_floorlog power_int_minus)
  have slow: "avgPrResponseTime sample_getTime (pullRequests_edges reply_slow)
        = Fin 691200000
      \<and> avgIssueResponseTime sample_getTime (issues_edges reply_slow) = Fin 691200000"
    by (simp add: reply_slow_def avgPrResponseTime_def avgIssueResponseTime_def
        pr_step_def issue_step_def average_def num_gt_def num_sub_def str_or_def
        sample_getTime_def to_double_def round_to_double_def ulp_exponent_def exponent_def
        round_even_def Let_def compute_floorlog power_int_minus)
  have a: "spec_is_average (Fin 1000) \<and> spec_is_average PosInf
      \<and> spec_is_average (Fin 86400000) \<and> spec_is_average (Fin 691200000)"
    by (simp add: spec_is_average_def)
  have b: "spec_below_threshold (Fin 1000) \<and> \<not> spec_below_threshold PosInf
      \<and> spec_below_threshold (Fin 86400000) \<and> \<not> spec_below_threshold (Fin 691200000)"
    by (simp add: spec_below_threshold_def)
  have c: "list_all pr_unresolved
        [\<lparr>pr_createdAt = ''1970-01-01T00:00:00Z'', pr_closedAt = None, pr_mergedAt = None,
          pr_state = ''OPEN''\<rparr>]"
    by (simp add: pr_unresolved_def)
  have d: "list_all issue_unresolved
        [\<lparr>issue_createdAt = ''1970-01-02T00:00:00Z'', issue_closedAt = None,
          issue_state = ''OPEN''\<rparr>]"
    by (simp add: issue_unresolved_def)
  show ?thesis
    using one both slow a b c d
      responsiveness_thresholds [of sample_getTime reply_one_side "Some ''o''" "Some ''n''"
        "\<lparr>clock = real, reads = 0, trace = []\<rparr>" "Fin 1000" PosInf
        "[\<lparr>pr_createdAt = ''1970-01-01T00:00:00Z'', pr_closedAt = None, pr_mergedAt = None,
          pr_state = ''OPEN''\<rparr>]"
        "[\<lparr>issue_createdAt = ''1970-01-02T00:00:00Z'', issue_closedAt = None,
          issue_state = ''OPEN''\<rparr>]"]
      responsiveness_thresholds [of sample_getTime reply_both_sides "Some ''o''" "Some ''n''"
        "\<lparr>clock = real, reads = 0, trace = []\<rparr>" "Fin 1000" PosInf "[]" "[]"]
      responsiveness_thresholds [of sample_getTime reply_slow "Some ''o''" "Some ''n''"
        "\<lparr>clock = real, reads = 0, trace = []\<rparr>" "Fin 1000" PosInf "[]" "[]"]
    by simp
qed

subsection \<open>The License calculator\<close>

lemma calculate_license_metric_success:
  "field (fst (calculate_license_metric owner name (Inr repo) w)) ''licenseScore''
     = Some (licenseScore_of repo)"
  by (simp add: calculate_license_metric_def performance_now_def getLatency_def
      field_def Let_def)

lemma MIT_allowed: "''MIT'' \<in> set lgplCompatibleSpdxIds"
  by (simp add: lgplCompatibleSpdxIds_def)

text \<open>
  C2, as the code has it: on a successful license query the score is 0 when
  \<open>licenseInfo\<close> or its SPDX identifier is missing.  Otherwise it is 1 when the license
  name is \<open>Other\<close>, the LICENSE text is present and not empty, and the License Classifier
  accepts the text; and when that does not hold, the Classifier rejecting the text
  included, it is 1 exactly when the SPDX identifier is on the allow-list.  An SPDX
  identifier \<open>MIT\<close> scores 1.
\<close>

theorem license_policy:
  "(licenseInfo repo = None \<or> (\<exists>i. licenseInfo repo = Some i \<and> info_spdxId i = None) \<longrightarrow>
      field (fst (calculate_license_metric owner name (Inr repo) w)) ''licenseScore''
        = Some (Fin 0))
   \<and> (licenseInfo repo = Some i \<and> info_spdxId i = Some ident \<longrightarrow>
        field (fst (calculate_license_metric owner name (Inr repo) w)) ''licenseScore''
          = Some (if info_name i = Some ''Other'' \<and> truthy_str (licenseText_of repo)
                     \<and> check_license_text (licenseText_of repo)
                  then Fin 1
                  else if ident \<in> set lgplCompatibleSpdxIds then Fin 1 else Fin 0))
   \<and> (licenseInfo repo = Some i \<and> info_spdxId i = Some ''MIT'' \<longrightarrow>
        field (fst (calculate_license_metric owner name (Inr repo) w)) ''licenseScore''
          = Some (Fin 1))"
  by (auto simp: calculate_license_metric_success licenseScore_of_def MIT_allowed Let_def)

theorem license_policy_witness:
  "field (fst (calculate_license_metric (Some ''o'') (Some ''n'')
       (Inr \<lparr>licenseInfo = None, mainLicense = None, masterLicense = None\<rparr>)
       \<lparr>clock = real, reads = 0, trace = []\<rparr>)) ''licenseScore'' = Some (Fin 0)
   \<and> field (fst (calculate_license_metric (Some ''o'') (Some ''n'')
       (Inr \<lparr>licenseInfo = Some \<lparr>info_name = Some ''MIT License'', info_spdxId = Some ''MIT''\<rparr>,
             mainLicense = None, masterLicense = None\<rparr>)
       \<lparr>clock = real, reads = 0, trace = []\<rparr>)) ''licenseScore'' = Some (Fin 1)
   \<and> field (fst (calculate_license_metric (Some ''o'') (Some ''n'')
       (Inr \<lparr>licenseInfo =
               Some \<lparr>info_name = Some ''Other'', info_spdxId = Some ''NOASSERTION''\<rparr>,
             mainLicense = None, masterLicense = Some (Some ''MIT License'')\<rparr>)
       \<lparr>clock = real, reads = 0, trace = []\<rparr>)) ''licenseScore'' = Some (Fin 1)"
proof -
  have t: "licenseText_of \<lparr>licenseInfo =
               Some \<lparr>info_name = Some ''Other'', info_spdxId = Some ''NOASSERTION''\<rparr>,
             mainLicense = None, masterLicense = Some (Some ''MIT License'')\<rparr>
           = Some ''MIT License''"
    by (simp add: licenseText_of_def opt_text_def str_or_def)
  have c: "check_license_text (Some ''MIT License'') = True"
    by code_simp
  show ?thesis
    using t c
      license_policy [of "\<lparr>licenseInfo = None, mainLicense = None, masterLicense = None\<rparr>"
        "Some ''o''" "Some ''n''" "\<lparr>clock = real, reads = 0, trace = []\<rparr>"
        "\<lparr>info_name = None, info_spdxId = None\<rparr>" "''MIT''"]
      license_policy [of
        "\<lparr>licenseInfo = Some \<lparr>info_name = Some ''MIT License'', info_spdxId = Some ''MIT''\<rparr>,
          mainLicense = None, masterLicense = None\<rparr>"
        "Some ''o''" "Some ''n''" "\<lparr>clock = real, reads = 0, trace = []\<rparr>"
        "\<lparr>info_name = Some ''MIT License'', info_spdxId = Some ''MIT''\<rparr>" "''MIT''"]
      license_policy [of
        "\<lparr>licenseInfo =
               Some \<lparr>info_name = Some ''Other'', info_spdxId = Some ''NOASSERTION''\<rparr>,
             mainLicense = None, masterLicense = Some (Some ''MIT License'')\<rparr>"
        "Some ''o''" "Some ''n''" "\<lparr>clock = real, reads = 0, trace = []\<rparr>"
        "\<lparr>info_name = Some ''Other'', info_spdxId = Some ''NOASSERTION''\<rparr>"
        "''NOASSERTION''"]
    by (simp add: MIT_allowed)
qed

text \<open>
  The claim as stated fails: the reply below has the license name \<open>Other\<close> and a LICENSE
  text that the Classifier rejects, and it scores 1, because its SPDX identifier is on the
  allow-list.
\<close>

theorem license_other_counterexample:
  "check_license_text (Some ''proprietary'') = False
   \<and> licenseText_of
        \<lparr>licenseInfo = Some \<lparr>info_name = Some ''Other'', info_spdxId = Some ''MIT''\<rparr>,
         mainLicense = Some (Some ''proprietary''), masterLicense = None\<rparr>
       = Some ''proprietary''
   \<and> field (fst (calculate_license_metric (Some ''o'') (Some ''n'')
        (Inr \<lparr>licenseInfo = Some \<lparr>info_name = Some ''Other'', info_spdxId = Some ''MIT''\<rparr>,
              mainLicense = Some (Some ''proprietary''), masterLicense = None\<rparr>)
        \<lparr>clock = real, reads = 0, trace = []\<rparr>)) ''licenseScore'' = Some (Fin 1)"
proof -
  have t: "licenseText_of
        \<lparr>licenseInfo = Some \<lparr>info_name = Some ''Other'', info_spdxId = Some ''MIT''\<rparr>,
         mainLicense = Some (Some ''proprietary''), masterLicense = None\<rparr>
       = Some ''proprietary''"
    by (simp add: licenseText_of_def opt_text_def str_or_def)
  have c: "check_license_text (Some ''proprietary'') = False"
    by code_simp
  show ?thesis
    using t c by (simp add: calculate_license_metric_success licenseScore_of_def MIT_allowed)
qed

subsection \<open>The pipeline driver on a fault of the correctness query\<close>

lemma JSON_stringify_keys:
  "fst ` set (JSON_stringify d) = {k. \<exists>v. (k, Some v) \<in> set d}"
  by (induction d rule: JSON_stringify.induct) auto

lemma calculate_correctness_metric_fault:
  "calculate_correctness_metric owner name (Inl e) w =
     ([(''licenseScore'', Fin 0), (''license_latency'', Fin 0)],
      log_fault e (w\<lparr>reads := Suc (reads w)\<rparr>))"
  by (simp add: calculate_correctness_metric_def performance_now_def)

text \<open>
  C1: when the correctness query faults, the calculator returns an object with the fields
  \<open>licenseScore\<close> and \<open>license_latency\<close>, both 0, and no field \<open>correctnessScore\<close> or
  \<open>correctness_latency\<close>; the driver reads both as \<^verbatim>\<open>undefined\<close>, and the record it prints
  has neither.  The last conjunct is the run in which all three queries fault.
\<close>

theorem correctness_fault_loses_fields:
  "fst (calculate_correctness_metric owner name (Inl e) w) =
     [(''licenseScore'', Fin 0), (''license_latency'', Fin 0)]
   \<and> field (fst (calculate_correctness_metric owner name (Inl e) w)) ''correctnessScore'' = None
   \<and> field (fst (calculate_correctness_metric owner name (Inl e) w)) ''correctness_latency''
       = None
   \<and> (\<exists>before members.
         trace (main getTime owner name license_reply responsiveness_reply (Inl e) w)
           = before @ [ConsoleLog [Ndjson members]]
         \<and> map_of members ''correctnessScore'' = None
         \<and> map_of members ''correctness_latency'' = None)
   \<and> trace (main sample_getTime (Some ''o'') (Some ''n'') (Inl (OtherError ''Bad credentials''))
        (Inl (OtherError ''Bad credentials'')) (Inl (OtherError ''Bad credentials''))
        \<lparr>clock = real, reads = 0, trace = []\<rparr>)
      = [ConsoleLog [Thrown (OtherError ''Bad credentials'')],
         ConsoleError [Text ''Error fetching repository data:'',
           Thrown (OtherError ''Bad credentials'')],
         ConsoleLog [Thrown (OtherError ''Bad credentials'')],
         ConsoleLog [Ndjson [(''licenseScore'', JNumber 0), (''license_latency'', JNumber 0),
           (''responsivenessScore'', JNumber 0), (''responsive_latency'', JNumber 0)]]]"
proof -
  obtain lic w1 where l: "calculate_license_metric owner name license_reply w = (lic, w1)"
    by (cases "calculate_license_metric owner name license_reply w")
  obtain resp w2 where
    r: "calculate_responsiveness_metric getTime owner name responsiveness_reply w1 = (resp, w2)"
    by (cases "calculate_responsiveness_metric getTime owner name responsiveness_reply w1")
  let ?data = "[(''licenseScore'', field lic ''licenseScore''),
               (''license_latency'', field lic ''license_latency''),
               (''responsivenessScore'', field resp ''responsivenessScore''),
               (''responsive_latency'', field resp ''responsive_latency''),
               (''correctnessScore'', None),
               (''correctness_latency'', None)]"
  have m: "trace (main getTime owner name license_reply responsiveness_reply (Inl e) w)
      = trace (log_fault e (w2\<lparr>reads := Suc (reads w2)\<rparr>))
        @ [ConsoleLog [Ndjson (JSON_stringify ?data)]]"
    by (simp add: main_def l r calculate_correctness_metric_fault emit_def field_def)
  have "''correctnessScore'' \<notin> fst ` set (JSON_stringify ?data)"
    "''correctness_latency'' \<notin> fst ` set (JSON_stringify ?data)"
    unfolding JSON_stringify_keys by simp_all
  then have k: "map_of (JSON_stringify ?data) ''correctnessScore'' = None"
    "map_of (JSON_stringify ?data) ''correctness_latency'' = None"
    by (simp_all add: map_of_eq_None_iff)
  have conc: "trace (main sample_getTime (Some ''o'') (Some ''n'') (Inl (OtherError ''Bad credentials''))
        (Inl (OtherError ''Bad credentials'')) (Inl (OtherError ''Bad credentials''))
        \<lparr>clock = real, reads = 0, trace = []\<rparr>)
      = [ConsoleLog [Thrown (OtherError ''Bad credentials'')],
         ConsoleError [Text ''Error fetching repository data:'',
           Thrown (OtherError ''Bad credentials'')],
         ConsoleLog [Thrown (OtherError ''Bad credentials'')],
         ConsoleLog [Ndjson [(''licenseScore'', JNumber 0), (''license_latency'', JNumber 0),
           (''responsivenessScore'', JNumber 0), (''responsive_latency'', JNumber 0)]]]"
    by (simp add: main_def calculate_license_metric_def calculate_responsiveness_metric_def
        calculate_correctness_metric_def performance_now_def log_fault_def emit_def field_def)
  show ?thesis
    using m k conc by (simp add: calculate_correctness_metric_fault field_def)
qed

subsection \<open>The Ramp-up calculator\<close>

lemma calculate_rampup_metric_cloned:
  "calculate_rampup_metric owner name (Inr u) rm_outcome w =
     (Inr [(''rampupScore'', Fin 0),
           (''rampup_latency'',
            toFixed3
              (num_div
                (num_sub (to_double (clock w (Suc (reads w)))) (to_double (clock w (reads w))))
                (Fin 1000)))],
      (case rm_outcome of
         Some err \<Rightarrow> emit (ConsoleError [FsErr err])
       | None \<Rightarrow> (\<lambda>w'. w'))
        (w\<lparr>reads := Suc (Suc (reads w)),
           trace := trace w @
             [GitClone (''./repos/'' @ template name)
                (''https://github.com/'' @ template owner @ ''/'' @ template name @ ''.git''),
              FsRm (''./repos/'' @ template name)]\<rparr>))"
  by (simp add: calculate_rampup_metric_def performance_now_def getLatency_def emit_def Let_def
      split: option.splits)

text \<open>
  C5, as the code has it: when the checkout succeeds, the calculator asks for the removal
  of its checkout directory right after the checkout and returns its result, score 0; a
  failure of the removal adds one line to the console and changes nothing else: the
  result is the one of a run whose removal succeeds.
\<close>

theorem rampup_cleanup_after_checkout:
  "(\<exists>latency. calculate_rampup_metric owner name (Inr ()) None w =
        (Inr [(''rampupScore'', Fin 0), (''rampup_latency'', latency)],
         w\<lparr>reads := Suc (Suc (reads w)),
           trace := trace w @
             [GitClone (''./repos/'' @ template name)
                (''https://github.com/'' @ template owner @ ''/'' @ template name @ ''.git''),
              FsRm (''./repos/'' @ template name)]\<rparr>))
   \<and> fst (calculate_rampup_metric owner name (Inr ()) (Some err) w)
       = fst (calculate_rampup_metric owner name (Inr ()) None w)
   \<and> snd (calculate_rampup_metric owner name (Inr ()) (Some err) w)
       = emit (ConsoleError [FsErr err]) (snd (calculate_rampup_metric owner name (Inr ()) None w))"
  by (simp add: calculate_rampup_metric_cloned)

text \<open>
  The claim as stated fails: when the checkout throws, the calculator hands the fault to
  its caller and the only effect is the checkout; no removal is asked for.
\<close>

theorem rampup_no_cleanup_counterexample:
  "calculate_rampup_metric (Some ''o'') (Some ''n'') (Inl (OtherError ''clone failed'')) None
     \<lparr>clock = real, reads = 0, trace = []\<rparr>
   = (Inl (OtherError ''clone failed''),
      \<lparr>clock = real, reads = 1,
       trace = [GitClone ''./repos/n'' ''https://github.com/o/n.git'']\<rparr>)
   \<and> FsRm ''./repos/n'' \<notin> set (trace (snd
         (calculate_rampup_metric (Some ''o'') (Some ''n'') (Inl (OtherError ''clone failed''))
            None \<lparr>clock = real, reads = 0, trace = []\<rparr>)))"
  by (simp add: calculate_rampup_metric_def performance_now_def emit_def)

text \<open>
  C10: when the checkout succeeds, the \<open>rampupScore\<close> of the result is 0, whatever the
  repository; with a ramp-up score of 0 and the three other sub-scores in [0,1], the net
  score is at most 0.75.
\<close>

theorem rampup_score_zero_caps_net_score:
  "(\<exists>ob w'. calculate_rampup_metric owner name (Inr ()) rm_outcome w = (Inr ob, w')
      \<and> field ob ''rampupScore'' = Some (Fin 0))
   \<and> (0 \<le> l \<and> l \<le> 1 \<and> 0 \<le> c \<and> c \<le> 1 \<and> 0 \<le> m \<and> m \<le> 1 \<longrightarrow>
        (\<exists>s. calculate_net_score (Fin l) (Fin 0) (Fin c) (Fin m) = Fin s \<and> s \<le> 0.75))"
  using calculate_net_score_no_rampup [of l c m]
  by (simp add: calculate_rampup_metric_cloned field_def)

theorem rampup_score_zero_caps_net_score_witness:
  "(0::real) \<le> 1 \<and> (1::real) \<le> 1
   \<and> calculate_net_score (Fin 1) (Fin 0) (Fin 1) (Fin 1) = Fin 0.75 \<and> (0.75::real) \<le> 0.75"
  using rampup_score_zero_caps_net_score [of None None None "\<lparr>clock = real, reads = 0, trace = []\<rparr>" 1 1 1]
  by (simp add: calculate_net_score_points)

end
